theory Spec2Isabelle
  imports Complex_Main "HOL-Library.Log_Nat"
begin

section \<open>Data model (types.ts, App.tsx)\<close>

text \<open>
  The interfaces \<open>Shot\<close>, \<open>Storyboard\<close> and \<open>Project\<close>. A field the
  TypeScript marks with \<open>?\<close> is an option (\<open>None\<close> is \<open>undefined\<close>). The fields
  \<open>id\<close> and \<open>name\<close> carry a prefix, since one name serves three interfaces in the
  source. A JavaScript number is a double: \<open>number\<close>, which the code only ever
  computes as an array index plus one, is a natural number here, and a duration
  or a time is a rational, as every finite double is (NaN and the infinities
  have no counterpart). The interval callback of the player is given twice:
  \<open>tick\<close> adds in exact arithmetic, where \<open>0.1\<close> is one tenth and sums do not
  round, and \<open>tick64\<close> rounds every sum to the nearest double as the machine
  does. What depends on the value of a sum is stated of \<open>tick64\<close>.
\<close>

record shot =
  shot_id :: string
  number :: nat
  duration :: rat
  title :: string
  cameraAngle :: "string option"
  imageUrl :: "string option"
  isGenerating :: "bool option"
  lastGeneratedPrompt :: "string option"

text \<open>
  \<open>TypeError\<close> is the exception of reading a property of \<open>undefined\<close>.
  \<open>NotAShot\<close> is no exception: it marks the one place where the code builds an
  array element that the type \<open>shot\<close> cannot hold (see \<open>movedShots\<close>).
\<close>

datatype error = TypeError | NotAShot

section \<open>Playback engine (components/AnimaticPlayer.tsx, and the player inlined in App.tsx)\<close>

text \<open>
  The player inlined in App.tsx keeps \<open>currentIndex\<close> and \<open>isPlaying\<close>; the
  component AnimaticPlayer.tsx keeps the same two (it calls the index
  \<open>currentShotIndex\<close>) and \<open>elapsedTime\<close> besides.
\<close>

record player =
  currentIndex :: nat
  isPlaying :: bool

record timed_player = player +
  elapsedTime :: rat

definition initialPlayer :: timed_player where
  \<comment> \<open>the three \<open>useState\<close> initial values\<close>
  "initialPlayer = \<lparr>currentIndex = 0, isPlaying = True, elapsedTime = 0\<rparr>"

definition currentShot :: "shot list \<Rightarrow> 'a player_scheme \<Rightarrow> shot option" where
  \<comment> \<open>\<open>shots[currentShotIndex]\<close>: \<open>undefined\<close> past the end\<close>
  "currentShot ss st =
     (if currentIndex st < length ss then Some (ss ! currentIndex st) else None)"

definition totalDuration :: "shot list \<Rightarrow> rat" where
  "totalDuration ss = foldl (\<lambda>acc s. acc + duration s) 0 ss"

definition currentShotStartTime :: "shot list \<Rightarrow> 'a player_scheme \<Rightarrow> rat" where
  "currentShotStartTime ss st =
     foldl (\<lambda>acc s. acc + duration s) 0 (take (currentIndex st) ss)"

definition tick_seconds :: rat where
  \<comment> \<open>\<open>tick / 1000\<close> with \<open>tick = 100\<close>\<close>
  "tick_seconds = 100 / 1000"

definition tick :: "shot list \<Rightarrow> timed_player \<Rightarrow> error + timed_player" where
  \<comment> \<open>the interval callback; reading \<open>currentShot.duration\<close> of an undefined shot throws\<close>
  "tick ss st =
     (case currentShot ss st of
        None \<Rightarrow> Inl TypeError
      | Some cs \<Rightarrow>
          (let nextTime = elapsedTime st + tick_seconds;
               shotEndTime = currentShotStartTime ss st + duration cs
           in if nextTime \<ge> shotEndTime
              then (if int (currentIndex st) < int (length ss) - 1
                    then Inr (st\<lparr>currentIndex := currentIndex st + 1, elapsedTime := nextTime\<rparr>)
                    else Inr (st\<lparr>isPlaying := False\<rparr>))
              else Inr (st\<lparr>elapsedTime := nextTime\<rparr>)))"

definition togglePlay :: "'a player_scheme \<Rightarrow> 'a player_scheme" where
  "togglePlay st = st\<lparr>isPlaying := \<not> isPlaying st\<rparr>"

text \<open>
  The states of an open AnimaticPlayer.tsx over the shot sequence \<open>ss\<close> it was given: the
  interval exists only while \<open>isPlaying\<close>, and the footer offers play/pause.
\<close>

inductive reach :: "shot list \<Rightarrow> timed_player \<Rightarrow> bool" for ss :: "shot list" where
  reach_init: "reach ss initialPlayer"
| reach_tick: "reach ss st \<Longrightarrow> isPlaying st \<Longrightarrow> tick ss st = Inr st' \<Longrightarrow> reach ss st'"
| reach_toggle: "reach ss st \<Longrightarrow> reach ss (togglePlay st)"

text \<open>
  \<open>run n\<close> is \<open>n\<close> firings of the interval with no click in between; once
  playback has stopped the interval is gone and nothing changes.
\<close>

fun run :: "nat \<Rightarrow> shot list \<Rightarrow> timed_player \<Rightarrow> error + timed_player" where
  "run 0 ss st = Inr st"
| "run (Suc n) ss st =
     (if isPlaying st
      then (case tick ss st of Inl e \<Rightarrow> Inl e | Inr st' \<Rightarrow> run n ss st')
      else Inr st)"

text \<open>
  The derived quantities as the specification words them: the start time of shot
  \<open>i\<close> is the sum of the durations of the shots before it, its end time is
  its start time plus its own duration.
\<close>

definition spec_shotStartTime :: "shot list \<Rightarrow> nat \<Rightarrow> rat" where
  "spec_shotStartTime ss i = sum_list (map duration (take i ss))"

definition spec_shotEndTime :: "shot list \<Rightarrow> nat \<Rightarrow> rat" where
  "spec_shotEndTime ss i = spec_shotStartTime ss i + duration (ss ! i)"

text \<open>
  The default shots of App.tsx (the typographic apostrophe of the second title
  is written as an ASCII one).
\<close>

definition DEFAULT_SHOTS :: "shot list" where
  "DEFAULT_SHOTS =
    [\<lparr>shot_id = ''1'', number = 1, duration = 35 / 10,
      title = ''Wide establishing shot of a dense, misty forest at midnight.'',
      cameraAngle = Some ''Wide Shot'', imageUrl = Some '''', isGenerating = None,
      lastGeneratedPrompt = Some ''''\<rparr>,
     \<lparr>shot_id = ''2'', number = 2, duration = 20 / 10,
      title = ''Extreme close-up of a young woman's eye. Her pupil dilates.'',
      cameraAngle = Some ''Extreme Close Up'', imageUrl = Some '''', isGenerating = None,
      lastGeneratedPrompt = Some ''''\<rparr>,
     \<lparr>shot_id = ''3'', number = 3, duration = 45 / 10,
      title = ''Medium shot from behind the woman as she stands before an old archway.'',
      cameraAngle = Some ''Medium Shot'', imageUrl = Some '''', isGenerating = None,
      lastGeneratedPrompt = Some ''''\<rparr>]"

subsection \<open>Times as doubles\<close>

text \<open>
  A JavaScript number is an IEEE 754 binary64 value, and every \<open>+\<close> of the
  source rounds its exact result to the nearest such value, ties to the even
  significand. \<open>round64\<close> is that rounding on the rationals: \<open>ilog2\<close> is the
  binary exponent of a positive number, and the significand is the nearest
  integer multiple of \<open>2 powi (ilog2 x - 52)\<close>. It agrees with the machine's
  rounding wherever the result is a normal double (magnitude from \<open>2 powi (-1022)\<close>
  to below \<open>2 powi 1024\<close>) and at zero; the subnormal range, overflow to
  infinity and NaN have no counterpart.
\<close>

definition rne :: "rat \<Rightarrow> int" where
  \<comment> \<open>the nearest integer, a tie going to the even one\<close>
  "rne m =
     (let f = \<lfloor>m\<rfloor>; r = m - of_int f
      in if r < 1 / 2 then f else if 1 / 2 < r then f + 1 else if even f then f else f + 1)"

definition ilog2 :: "rat \<Rightarrow> int" where
  \<comment> \<open>for \<open>0 < x\<close>, the \<open>e\<close> with \<open>2 powi e \<le> x < 2 powi (e + 1)\<close>\<close>
  "ilog2 x =
     (let k = (if 1 \<le> x then bitlen \<lfloor>x\<rfloor> - 1 else 1 - bitlen \<lfloor>1 / x\<rfloor>)
      in if 2 powi k \<le> x then k else k - 1)"

definition round64 :: "rat \<Rightarrow> rat" where
  "round64 x =
     (if x = 0 then 0
      else (let q = 2 powi (ilog2 \<bar>x\<bar> - 52)
            in sgn x * of_int (rne (\<bar>x\<bar> / q)) * q))"

definition fadd :: "rat \<Rightarrow> rat \<Rightarrow> rat" where
  \<comment> \<open>\<open>x + y\<close> on doubles\<close>
  "fadd x y = round64 (x + y)"


text \<open>
  The interval callback of AnimaticPlayer.tsx and the two sums of its render, as
  the machine computes them: \<open>tick / 1000\<close> is the double nearest to one tenth,
  and every sum is rounded. The durations of a shot sequence are doubles to begin
  with.
\<close>

definition tick_seconds64 :: rat where
  \<comment> \<open>\<open>tick / 1000\<close> with \<open>tick = 100\<close>\<close>
  "tick_seconds64 = round64 (100 / 1000)"

definition totalDuration64 :: "shot list \<Rightarrow> rat" where
  "totalDuration64 ss = foldl (\<lambda>acc s. fadd acc (duration s)) 0 ss"

definition currentShotStartTime64 :: "shot list \<Rightarrow> 'a player_scheme \<Rightarrow> rat" where
  "currentShotStartTime64 ss st =
     foldl (\<lambda>acc s. fadd acc (duration s)) 0 (take (currentIndex st) ss)"

definition tick64 :: "shot list \<Rightarrow> timed_player \<Rightarrow> error + timed_player" where
  \<comment> \<open>the interval callback; reading \<open>currentShot.duration\<close> of an undefined shot throws\<close>
  "tick64 ss st =
     (case currentShot ss st of
        None \<Rightarrow> Inl TypeError
      | Some cs \<Rightarrow>
          (let nextTime = fadd (elapsedTime st) tick_seconds64;
               shotEndTime = fadd (currentShotStartTime64 ss st) (duration cs)
           in if nextTime \<ge> shotEndTime
              then (if int (currentIndex st) < int (length ss) - 1
                    then Inr (st\<lparr>currentIndex := currentIndex st + 1, elapsedTime := nextTime\<rparr>)
                    else Inr (st\<lparr>isPlaying := False\<rparr>))
              else Inr (st\<lparr>elapsedTime := nextTime\<rparr>)))"

inductive reach64 :: "shot list \<Rightarrow> timed_player \<Rightarrow> bool" for ss :: "shot list" where
  reach64_init: "reach64 ss initialPlayer"
| reach64_tick: "reach64 ss st \<Longrightarrow> isPlaying st \<Longrightarrow> tick64 ss st = Inr st' \<Longrightarrow> reach64 ss st'"
| reach64_toggle: "reach64 ss st \<Longrightarrow> reach64 ss (togglePlay st)"

fun run64 :: "nat \<Rightarrow> shot list \<Rightarrow> timed_player \<Rightarrow> error + timed_player" where
  "run64 0 ss st = Inr st"
| "run64 (Suc n) ss st =
     (if isPlaying st
      then (case tick64 ss st of Inl e \<Rightarrow> Inl e | Inr st' \<Rightarrow> run64 n ss st')
      else Inr st)"

definition shotEndTime64 :: "shot list \<Rightarrow> nat \<Rightarrow> rat" where
  \<comment> \<open>the callback's \<open>shotEndTime\<close> while shot \<open>i\<close> is current\<close>
  "shotEndTime64 ss i =
     fadd (foldl (\<lambda>acc s. fadd acc (duration s)) 0 (take i ss)) (duration (ss ! i))"

fun ticks64 :: "nat \<Rightarrow> rat" where
  \<comment> \<open>\<open>elapsedTime\<close> after \<open>n\<close> ticks none of which ended playback\<close>
  "ticks64 0 = 0"
| "ticks64 (Suc n) = fadd (ticks64 n) tick_seconds64"

text \<open>
  Two example sequences. The shots of the first last 0.05 s and 0.02 s, both
  shorter than one tick; those of the second last 0.10000000000000002 s (the
  double after 0.1) and 0.1 s. The durations are written as the fractions that
  these doubles are.
\<close>

definition brief_shots :: "shot list" where
  "brief_shots =
    [\<lparr>shot_id = ''a'', number = 1, duration = 3602879701896397 / 72057594037927936,
      title = ''A'',
      cameraAngle = None, imageUrl = None, isGenerating = None, lastGeneratedPrompt = None\<rparr>,
     \<lparr>shot_id = ''b'', number = 2, duration = 5764607523034235 / 288230376151711744,
      title = ''B'',
      cameraAngle = None, imageUrl = None, isGenerating = None, lastGeneratedPrompt = None\<rparr>]"

definition tenth_shots :: "shot list" where
  "tenth_shots =
    [\<lparr>shot_id = ''a'', number = 1, duration = 7205759403792795 / 72057594037927936,
      title = ''A'',
      cameraAngle = None, imageUrl = None, isGenerating = None, lastGeneratedPrompt = None\<rparr>,
     \<lparr>shot_id = ''b'', number = 2, duration = 3602879701896397 / 36028797018963968,
      title = ''B'',
      cameraAngle = None, imageUrl = None, isGenerating = None, lastGeneratedPrompt = None\<rparr>]"

subsection \<open>The player inlined in App.tsx\<close>











section \<open>Project and storyboard store (App.tsx)\<close>

record storyboard =
  sb_id :: string
  sb_name :: string
  shots :: "shot list"

datatype aspect_ratio = R16_9 | R9_16 | R4_3 | R3_4 | R1_1

record project =
  proj_id :: string
  proj_name :: string
  storyboards :: "storyboard list"
  activeStoryboardId :: string
  aspectRatio :: aspect_ratio

datatype delete_type = DeleteProject | DeleteStoryboard

record delete_confirmation =
  isOpen :: bool
  dc_type :: "delete_type option"
  dc_id :: "string option"
  dc_name :: string

text \<open>The state of the \<open>App\<close> component that the handlers read and write.\<close>

record app =
  projects :: "project list"
  activeProjectId :: string
  isPlayerOpen :: bool
  selectedShotId :: "string option"
  deleteConfirmation :: delete_confirmation

text \<open>
  \<open>Partial<Shot>\<close>, the argument of \<open>updateShot\<close>: every field of a shot may be
  present. For a field that is itself optional the key can be present with the
  value \<open>undefined\<close> (\<open>Some None\<close>), which the spread writes over the old value.
\<close>

record shot_updates =
  u_id :: "string option"
  u_number :: "nat option"
  u_duration :: "rat option"
  u_title :: "string option"
  u_cameraAngle :: "string option option"
  u_imageUrl :: "string option option"
  u_isGenerating :: "bool option option"
  u_lastGeneratedPrompt :: "string option option"

definition no_updates :: shot_updates where
  "no_updates = \<lparr>u_id = None, u_number = None, u_duration = None, u_title = None,
     u_cameraAngle = None, u_imageUrl = None, u_isGenerating = None,
     u_lastGeneratedPrompt = None\<rparr>"

definition merge_shot :: "shot \<Rightarrow> shot_updates \<Rightarrow> shot" where
  \<comment> \<open>\<open>{ ...s, ...updates }\<close>\<close>
  "merge_shot s u =
     \<lparr>shot_id = (case u_id u of None \<Rightarrow> shot_id s | Some v \<Rightarrow> v),
      number = (case u_number u of None \<Rightarrow> number s | Some v \<Rightarrow> v),
      duration = (case u_duration u of None \<Rightarrow> duration s | Some v \<Rightarrow> v),
      title = (case u_title u of None \<Rightarrow> title s | Some v \<Rightarrow> v),
      cameraAngle = (case u_cameraAngle u of None \<Rightarrow> cameraAngle s | Some v \<Rightarrow> v),
      imageUrl = (case u_imageUrl u of None \<Rightarrow> imageUrl s | Some v \<Rightarrow> v),
      isGenerating = (case u_isGenerating u of None \<Rightarrow> isGenerating s | Some v \<Rightarrow> v),
      lastGeneratedPrompt =
        (case u_lastGeneratedPrompt u of None \<Rightarrow> lastGeneratedPrompt s | Some v \<Rightarrow> v)\<rparr>"

definition digit :: "nat \<Rightarrow> char" where
  "digit d = ''0123456789'' ! d"

function decimal :: "nat \<Rightarrow> string" where
  \<comment> \<open>a non-negative integer inside a template literal\<close>
  "decimal n = (if n < 10 then [digit n] else decimal (n div 10) @ [digit (n mod 10)])"
  by pat_completeness auto
termination
  by (relation "measure (\<lambda>n. n)") auto

declare decimal.simps [simp del]

definition find_or_first :: "('a \<Rightarrow> bool) \<Rightarrow> 'a list \<Rightarrow> 'a option" where
  \<comment> \<open>\<open>xs.find(P) || xs[0]\<close> on an array of objects; \<open>None\<close> is \<open>undefined\<close>\<close>
  "find_or_first P xs =
     (case find P xs of
        Some x \<Rightarrow> Some x
      | None \<Rightarrow> (case xs of [] \<Rightarrow> None | x # _ \<Rightarrow> Some x))"

definition activeProject :: "app \<Rightarrow> project option" where
  "activeProject a = find_or_first (\<lambda>p. proj_id p = activeProjectId a) (projects a)"

definition activeStoryboard :: "project \<Rightarrow> storyboard option" where
  "activeStoryboard ap =
     find_or_first (\<lambda>sb. sb_id sb = activeStoryboardId ap) (storyboards ap)"

definition derived :: "app \<Rightarrow> error + project \<times> storyboard" where
  \<comment> \<open>the derived state of a render; reading \<open>.storyboards\<close> or \<open>.shots\<close> of
      \<open>undefined\<close> throws, and then no handler exists\<close>
  "derived a =
     (case activeProject a of
        None \<Rightarrow> Inl TypeError
      | Some ap \<Rightarrow>
          (case activeStoryboard ap of
             None \<Rightarrow> Inl TypeError
           | Some asb \<Rightarrow> Inr (ap, asb)))"

definition withStoryboard :: "project \<Rightarrow> storyboard \<Rightarrow> storyboard \<Rightarrow> project" where
  \<comment> \<open>\<open>{ ...activeProject, storyboards: activeProject.storyboards.map(sb =>
      sb.id === activeStoryboard.id ? updatedStoryboard : sb) }\<close>\<close>
  "withStoryboard ap asb updatedStoryboard =
     ap\<lparr>storyboards :=
          map (\<lambda>sb. if sb_id sb = sb_id asb then updatedStoryboard else sb) (storyboards ap)\<rparr>"

definition withProject :: "app \<Rightarrow> project \<Rightarrow> project list" where
  \<comment> \<open>\<open>projects.map(p => p.id === activeProjectId ? updatedProject : p)\<close>\<close>
  "withProject a updatedProject =
     map (\<lambda>p. if proj_id p = activeProjectId a then updatedProject else p) (projects a)"

definition renumber :: "shot list \<Rightarrow> shot list" where
  \<comment> \<open>\<open>.map((s, i) => ({ ...s, number: i + 1 }))\<close>\<close>
  "renumber ss = map (\<lambda>(i, s). s\<lparr>number := i + 1\<rparr>) (enumerate 0 ss)"

definition splice :: "nat \<Rightarrow> nat \<Rightarrow> 'a list \<Rightarrow> 'a list \<Rightarrow> 'a list \<times> 'a list" where
  \<comment> \<open>\<open>xs.splice(start, deleteCount, ...items)\<close> for a non-negative \<open>start\<close>: the
      removed elements and the array afterwards; both arguments are clamped\<close>
  "splice start deleteCount items xs =
     (let s = min start (length xs);
          d = min deleteCount (length xs - s)
      in (take d (drop s xs), take s xs @ items @ drop (s + d) xs))"

definition movedShots :: "nat \<Rightarrow> nat \<Rightarrow> shot list \<Rightarrow> error + shot list" where
  \<comment> \<open>\<open>updatedShots\<close> of \<open>handleMoveShot\<close>. With \<open>fromIndex\<close> past the end nothing
      is removed, \<open>movedShot\<close> is \<open>undefined\<close>, and the array gets an object
      \<open>{ number: i + 1 }\<close> that is no shot: the model stops there\<close>
  "movedShots fromIndex toIndex ss =
     (case splice fromIndex 1 [] ss of
        (removed, newShots) \<Rightarrow>
          (case removed of
             [] \<Rightarrow> Inl NotAShot
           | movedShot # _ \<Rightarrow> Inr (renumber (snd (splice toIndex 0 [movedShot] newShots)))))"

definition handleAddShot :: "nat \<Rightarrow> app \<Rightarrow> error + app" where
  \<comment> \<open>\<open>now\<close> is the value of \<open>Date.now()\<close>\<close>
  "handleAddShot now a =
     (case derived a of
        Inl e \<Rightarrow> Inl e
      | Inr (ap, asb) \<Rightarrow>
          (let newShot = \<lparr>shot_id = ''shot-'' @ decimal now,
                          number = length (shots asb) + 1, duration = 2, title = '''',
                          cameraAngle = Some ''Wide Shot'', imageUrl = Some '''',
                          isGenerating = None, lastGeneratedPrompt = None\<rparr>;
               updatedStoryboard = asb\<lparr>shots := shots asb @ [newShot]\<rparr>;
               updatedProject = withStoryboard ap asb updatedStoryboard
           in Inr (a\<lparr>projects := withProject a updatedProject,
                      selectedShotId := Some (shot_id newShot)\<rparr>)))"

definition deleteShot :: "string \<Rightarrow> app \<Rightarrow> error + app" where
  "deleteShot shotId a =
     (case derived a of
        Inl e \<Rightarrow> Inl e
      | Inr (ap, asb) \<Rightarrow>
          (let remainingShots = renumber (filter (\<lambda>s. shot_id s \<noteq> shotId) (shots asb));
               updatedStoryboard = asb\<lparr>shots := remainingShots\<rparr>;
               updatedProject = withStoryboard ap asb updatedStoryboard
           in Inr (a\<lparr>projects := withProject a updatedProject\<rparr>)))"

definition handleMoveShot :: "nat \<Rightarrow> nat \<Rightarrow> app \<Rightarrow> error + app" where
  "handleMoveShot fromIndex toIndex a =
     (case derived a of
        Inl e \<Rightarrow> Inl e
      | Inr (ap, asb) \<Rightarrow>
          if fromIndex = toIndex then Inr a
          else (case movedShots fromIndex toIndex (shots asb) of
                  Inl e \<Rightarrow> Inl e
                | Inr updatedShots \<Rightarrow>
                    (let updatedStoryboard = asb\<lparr>shots := updatedShots\<rparr>;
                         updatedProject = withStoryboard ap asb updatedStoryboard
                     in Inr (a\<lparr>projects := withProject a updatedProject\<rparr>))))"

definition updateShot :: "string \<Rightarrow> string \<Rightarrow> shot_updates \<Rightarrow> project list \<Rightarrow> project list" where
  \<comment> \<open>the updater that \<open>updateShot\<close> hands to \<open>setProjects\<close>: \<open>apid\<close> is the
      \<open>activeProjectId\<close> of the render that made the closure, the last argument
      is \<open>prevProjects\<close>\<close>
  "updateShot apid shotId updates prevProjects =
     map (\<lambda>p. if proj_id p = apid
              then p\<lparr>storyboards :=
                      map (\<lambda>sb. if sb_id sb = activeStoryboardId p
                                then sb\<lparr>shots :=
                                       map (\<lambda>s. if shot_id s = shotId
                                                then merge_shot s updates else s)
                                         (shots sb)\<rparr>
                                else sb)
                        (storyboards p)\<rparr>
              else p)
       prevProjects"

subsection \<open>Shot numbering, default data and an example store\<close>




definition sans_number :: "shot \<Rightarrow> shot" where
  "sans_number s = s\<lparr>number := 0\<rparr>"

definition DEFAULT_STORYBOARDS :: "storyboard list" where
  "DEFAULT_STORYBOARDS = [\<lparr>sb_id = ''sb-1'', sb_name = ''The Encounter'', shots = DEFAULT_SHOTS\<rparr>]"

definition DEFAULT_PROJECTS :: "project list" where
  "DEFAULT_PROJECTS =
     [\<lparr>proj_id = ''p-1'', proj_name = ''The Midnight Discovery'',
       storyboards = DEFAULT_STORYBOARDS, activeStoryboardId = ''sb-1'',
       aspectRatio = R16_9\<rparr>]"

definition initialApp :: "project list option \<Rightarrow> app" where
  \<comment> \<open>the \<open>useState\<close> initial values; \<open>saved\<close> is what \<open>localStorage\<close> holds and
      parses to, \<open>None\<close> when there is nothing or parsing throws\<close>
  "initialApp saved =
     \<lparr>projects = (case saved of Some ps \<Rightarrow> ps | None \<Rightarrow> DEFAULT_PROJECTS),
      activeProjectId = ''p-1'', isPlayerOpen = False, selectedShotId = Some ''1'',
      deleteConfirmation = \<lparr>isOpen = False, dc_type = None, dc_id = None, dc_name = ''''\<rparr>\<rparr>"

text \<open>
  An example store: one project, one storyboard, shots titled A, B and C, the
  first with a generated image.
\<close>

definition abc_shots :: "shot list" where
  "abc_shots =
    [\<lparr>shot_id = ''a'', number = 1, duration = 2, title = ''A'',
      cameraAngle = None, imageUrl = Some ''data:image/png;base64,AAAA'',
      isGenerating = None, lastGeneratedPrompt = Some ''A''\<rparr>,
     \<lparr>shot_id = ''b'', number = 2, duration = 2, title = ''B'',
      cameraAngle = None, imageUrl = None, isGenerating = None, lastGeneratedPrompt = None\<rparr>,
     \<lparr>shot_id = ''c'', number = 3, duration = 2, title = ''C'',
      cameraAngle = None, imageUrl = None, isGenerating = None, lastGeneratedPrompt = None\<rparr>]"

definition abc_storyboard :: storyboard where
  "abc_storyboard = \<lparr>sb_id = ''sb-1'', sb_name = ''Main Storyboard'', shots = abc_shots\<rparr>"

definition abc_project :: project where
  "abc_project =
     \<lparr>proj_id = ''p-1'', proj_name = ''Example'', storyboards = [abc_storyboard],
      activeStoryboardId = ''sb-1'', aspectRatio = R16_9\<rparr>"

definition abc_app :: app where
  "abc_app = initialApp (Some [abc_project])"

subsection \<open>Image generation and the regeneration flow (services/geminiService.ts, App.tsx)\<close>

text \<open>
  The image-generation service (services/geminiService.ts). The call to the
  remote model is the environment: it rejects (or the client constructor throws),
  or it resolves to a response whose \<open>candidates\<close>, \<open>content\<close>, \<open>parts\<close> and
  \<open>inlineData\<close> may each be missing. The function catches every exception and
  returns \<open>null\<close>, here \<open>None\<close>. The fixed text it wraps around the prompt is left
  to the environment.
\<close>

record inline_data =
  mimeType :: string
  data :: string

record gen_part =
  inlineData :: "inline_data option"

record gen_content =
  parts :: "gen_part list option"

record candidate =
  content :: "gen_content option"

record response =
  candidates :: "candidate list option"

datatype api_outcome = Rejects | Resolves response

definition generateShotSketch ::
  "(string \<Rightarrow> aspect_ratio \<Rightarrow> api_outcome) \<Rightarrow> string \<Rightarrow> aspect_ratio \<Rightarrow> string option" where
  "generateShotSketch api prompt ratio =
     (case api prompt ratio of
        Rejects \<Rightarrow> None
      | Resolves r \<Rightarrow>
          (case candidates r of
             None \<Rightarrow> None
           | Some cs \<Rightarrow>
               (case cs of
                  [] \<Rightarrow> None \<comment> \<open>\<open>candidates[0].content\<close> throws, caught\<close>
                | c # _ \<Rightarrow>
                    (case content c of
                       None \<Rightarrow> None \<comment> \<open>\<open>content.parts\<close> throws, caught\<close>
                     | Some ct \<Rightarrow>
                         (case parts ct of
                            None \<Rightarrow> None
                          | Some ps \<Rightarrow>
                              (case find (\<lambda>p. inlineData p \<noteq> None) ps of
                                 None \<Rightarrow> None
                               | Some p \<Rightarrow>
                                   (case inlineData p of
                                      None \<Rightarrow> None
                                    | Some d \<Rightarrow>
                                        Some (''data:'' @ mimeType d @ '';base64,'' @ data d))))))))"

definition is_space :: "char \<Rightarrow> bool" where
  \<comment> \<open>the white space and line terminators of \<open>trim\<close> below code point 256\<close>
  "is_space c =
     (c \<in> set [CHR '' '', CHR 0x09, CHR 0x0A, CHR 0x0B, CHR 0x0C, CHR 0x0D, CHR 0xA0])"

definition trim :: "string \<Rightarrow> string" where
  "trim s = rev (dropWhile is_space (rev (dropWhile is_space s)))"

definition currentShots :: "project \<Rightarrow> shot list" where
  \<comment> \<open>\<open>activeProject.storyboards.find(sb => sb.id === activeProject.activeStoryboardId)?.shots || []\<close>\<close>
  "currentShots ap =
     (case find (\<lambda>sb. sb_id sb = activeStoryboardId ap) (storyboards ap) of
        Some sb \<Rightarrow> shots sb
      | None \<Rightarrow> [])"

definition findShot :: "project \<Rightarrow> string \<Rightarrow> shot option" where
  "findShot ap shotId = find (\<lambda>s. shot_id s = shotId) (currentShots ap)"

definition regenerationPrompt :: "project \<Rightarrow> string \<Rightarrow> (string \<times> string) option" where
  \<comment> \<open>the start of \<open>forceRegenerate\<close>: \<open>None\<close> when it returns before any update,
      else \<open>promptText\<close> and \<open>finalPrompt\<close>\<close>
  "regenerationPrompt ap shotId =
     (case findShot ap shotId of
        None \<Rightarrow> None
      | Some shot \<Rightarrow>
          (let promptText = trim (title shot)
           in if promptText = '''' then None
              else (let cameraInstruction =
                          (case cameraAngle shot of
                             None \<Rightarrow> ''''
                           | Some angle \<Rightarrow>
                               if angle = '''' then ''''
                               else ''Camera Angle: '' @ angle @ ''. '')
                    in Some (promptText, cameraInstruction @ promptText))))"

definition startedUpdates :: shot_updates where
  \<comment> \<open>\<open>{ isGenerating: true, imageUrl: undefined }\<close>\<close>
  "startedUpdates = no_updates\<lparr>u_isGenerating := Some (Some True), u_imageUrl := Some None\<rparr>"

definition finishedUpdates :: "string \<Rightarrow> string option \<Rightarrow> shot_updates" where
  \<comment> \<open>\<open>{ isGenerating: false, imageUrl: generatedImage || undefined,
      lastGeneratedPrompt: promptText }\<close>\<close>
  "finishedUpdates promptText generatedImage =
     no_updates\<lparr>u_isGenerating := Some (Some False),
                u_imageUrl := Some (if generatedImage = Some '''' then None else generatedImage),
                u_lastGeneratedPrompt := Some (Some promptText)\<rparr>"

definition forceRegenerate ::
  "(string \<Rightarrow> aspect_ratio \<Rightarrow> api_outcome) \<Rightarrow> (app \<Rightarrow> error + app) \<Rightarrow> string \<Rightarrow> app
     \<Rightarrow> error + app" where
  \<comment> \<open>the whole flow. \<open>during\<close> is what the other handlers do to the state while the
      call is awaited (\<open>Inr\<close> when nothing happens); both calls of \<open>updateShot\<close> come
      from the render in which the flow started, and so use its \<open>activeProjectId\<close>\<close>
  "forceRegenerate api during shotId a =
     (case derived a of
        Inl e \<Rightarrow> Inl e
      | Inr (ap, asb) \<Rightarrow>
          (case regenerationPrompt ap shotId of
             None \<Rightarrow> Inr a
           | Some (promptText, finalPrompt) \<Rightarrow>
               (let started = a\<lparr>projects :=
                                updateShot (activeProjectId a) shotId startedUpdates (projects a)\<rparr>;
                    generatedImage = generateShotSketch api finalPrompt (aspectRatio ap)
                in case during started of
                     Inl e \<Rightarrow> Inl e
                   | Inr awaited \<Rightarrow>
                       Inr (awaited\<lparr>projects :=
                              updateShot (activeProjectId a) shotId
                                (finishedUpdates promptText generatedImage)
                                (projects awaited)\<rparr>))))"


subsection \<open>Projects, storyboards and the opening of the player (App.tsx)\<close>

definition handleNewProject :: "nat \<Rightarrow> nat \<Rightarrow> nat \<Rightarrow> app \<Rightarrow> error + app" where
  \<comment> \<open>the object literal calls \<open>Date.now()\<close> three times, in this order: for the
      project id, for the storyboard id and for \<open>activeStoryboardId\<close>\<close>
  "handleNewProject now1 now2 now3 a =
     (case derived a of
        Inl e \<Rightarrow> Inl e
      | Inr _ \<Rightarrow>
          (let newProject =
                 \<lparr>proj_id = ''p-'' @ decimal now1, proj_name = ''New Project'',
                  storyboards = [\<lparr>sb_id = ''sb-'' @ decimal now2,
                                  sb_name = ''Main Storyboard'', shots = []\<rparr>],
                  activeStoryboardId = ''sb-'' @ decimal now3, aspectRatio = R16_9\<rparr>
           in Inr (a\<lparr>projects := projects a @ [newProject],
                      activeProjectId := proj_id newProject\<rparr>)))"

definition handleNewStoryboard :: "nat \<Rightarrow> app \<Rightarrow> error + app" where
  \<comment> \<open>the add-storyboard button: one \<open>Date.now()\<close>, and \<open>activeStoryboardId: newSb.id\<close>\<close>
  "handleNewStoryboard now a =
     (case derived a of
        Inl e \<Rightarrow> Inl e
      | Inr (ap, asb) \<Rightarrow>
          (let newSb = \<lparr>sb_id = ''sb-'' @ decimal now,
                        sb_name = ''Storyboard '' @ decimal (length (storyboards ap) + 1),
                        shots = []\<rparr>;
               updated = ap\<lparr>storyboards := storyboards ap @ [newSb],
                            activeStoryboardId := sb_id newSb\<rparr>
           in Inr (a\<lparr>projects := withProject a updated\<rparr>)))"

definition selectStoryboard :: "storyboard \<Rightarrow> app \<Rightarrow> error + app" where
  \<comment> \<open>a click on the tab of a storyboard of the active project\<close>
  "selectStoryboard sb a =
     (case derived a of
        Inl e \<Rightarrow> Inl e
      | Inr (ap, asb) \<Rightarrow>
          Inr (a\<lparr>projects := withProject a (ap\<lparr>activeStoryboardId := sb_id sb\<rparr>)\<rparr>))"

definition requestDeleteStoryboard :: "string \<Rightarrow> string \<Rightarrow> app \<Rightarrow> error + app" where
  "requestDeleteStoryboard storyboardId storyboardName a =
     (case derived a of
        Inl e \<Rightarrow> Inl e
      | Inr (ap, asb) \<Rightarrow>
          if length (storyboards ap) \<le> 1 then Inr a
          else Inr (a\<lparr>deleteConfirmation :=
                        \<lparr>isOpen = True, dc_type = Some DeleteStoryboard,
                         dc_id = Some storyboardId, dc_name = storyboardName\<rparr>\<rparr>))"

definition closedConfirmation :: delete_confirmation where
  "closedConfirmation = \<lparr>isOpen = False, dc_type = None, dc_id = None, dc_name = ''''\<rparr>"

definition executeDelete :: "app \<Rightarrow> error + app" where
  \<comment> \<open>\<open>type === ... && id\<close>: the id must be present and not the empty string.
      With no project left, \<open>remaining[0].id\<close> throws\<close>
  "executeDelete a =
     (case derived a of
        Inl e \<Rightarrow> Inl e
      | Inr (ap, asb) \<Rightarrow>
          (case dc_id (deleteConfirmation a) of
             None \<Rightarrow> Inr (a\<lparr>deleteConfirmation := closedConfirmation\<rparr>)
           | Some i \<Rightarrow>
               if dc_type (deleteConfirmation a) = Some DeleteProject \<and> i \<noteq> ''''
               then (let remaining = filter (\<lambda>p. proj_id p \<noteq> i) (projects a)
                     in if activeProjectId a = i
                        then (case remaining of
                                [] \<Rightarrow> Inl TypeError
                              | r # _ \<Rightarrow>
                                  Inr (a\<lparr>projects := remaining, activeProjectId := proj_id r,
                                         deleteConfirmation := closedConfirmation\<rparr>))
                        else Inr (a\<lparr>projects := remaining,
                                    deleteConfirmation := closedConfirmation\<rparr>))
               else if dc_type (deleteConfirmation a) = Some DeleteStoryboard \<and> i \<noteq> ''''
               then (let remainingStoryboards = filter (\<lambda>sb. sb_id sb \<noteq> i) (storyboards ap)
                     in case remainingStoryboards of
                          [] \<Rightarrow> Inr (a\<lparr>deleteConfirmation := closedConfirmation\<rparr>)
                        | r # _ \<Rightarrow>
                            (let updatedProject =
                                   ap\<lparr>storyboards := remainingStoryboards,
                                      activeStoryboardId :=
                                        (if activeStoryboardId ap = i then sb_id r
                                         else activeStoryboardId ap)\<rparr>
                             in Inr (a\<lparr>projects := withProject a updatedProject,
                                        deleteConfirmation := closedConfirmation\<rparr>)))
               else Inr (a\<lparr>deleteConfirmation := closedConfirmation\<rparr>)))"

text \<open>
  The invariant of the specification: every project owns a storyboard, and its
  \<open>activeStoryboardId\<close> is the id of a storyboard it owns.
\<close>

definition project_ok :: "project \<Rightarrow> bool" where
  "project_ok p = (storyboards p \<noteq> [] \<and> activeStoryboardId p \<in> set (map sb_id (storyboards p)))"

definition store_ok :: "project list \<Rightarrow> bool" where
  "store_ok ps = list_all project_ok ps"

definition openPlayer :: "app \<Rightarrow> app" where
  \<comment> \<open>the Play Animatic button: \<open>setIsPlayerOpen(true)\<close>\<close>
  "openPlayer a = a\<lparr>isPlayerOpen := True\<rparr>"

text \<open>
  What AnimaticPlayer.tsx renders of the current shot: the image, chosen by
  \<open>currentShot?.imageUrl\<close>, and the caption, which reads \<open>currentShot.number\<close> and
  \<open>currentShot.title\<close> without \<open>?.\<close> and so throws when there is no current shot.
  The application in its modular form (the one that imports the component)
  mounts it with the expression that App.tsx uses for its inlined player, from
  the same state and behind the same Play Animatic button.
\<close>

record player_view =
  v_image :: "string option"
  v_number :: nat
  v_title :: string

definition shownImage :: "shot option \<Rightarrow> string option" where
  \<comment> \<open>\<open>currentShot?.imageUrl ? <img src=... /> : (placeholder)\<close>; \<open>None\<close> is the placeholder\<close>
  "shownImage cs =
     (case cs of
        None \<Rightarrow> None
      | Some s \<Rightarrow> (case imageUrl s of None \<Rightarrow> None | Some u \<Rightarrow> if u = '''' then None else Some u))"

definition shotCaption :: "shot list \<Rightarrow> 'a player_scheme \<Rightarrow> error + nat \<times> string" where
  \<comment> \<open>the caption of AnimaticPlayer.tsx reads \<open>currentShot.number\<close> and
      \<open>currentShot.title\<close> without \<open>?.\<close>\<close>
  "shotCaption ss st =
     (case currentShot ss st of
        None \<Rightarrow> Inl TypeError
      | Some cs \<Rightarrow> Inr (number cs, title cs))"

definition renderPlayer :: "shot list \<Rightarrow> timed_player \<Rightarrow> error + player_view" where
  "renderPlayer ss st =
     (let image = shownImage (currentShot ss st)
      in case shotCaption ss st of
           Inl e \<Rightarrow> Inl e
         | Inr (n, t) \<Rightarrow> Inr \<lparr>v_image = image, v_number = n, v_title = t\<rparr>)"

definition mountedPlayer :: "app \<Rightarrow> error + (shot list \<times> timed_player) option" where
  \<comment> \<open>\<open>{isPlayerOpen && <AnimaticPlayer shots={shots} ... />}\<close>: the shots and
      the initial state of the player that a render mounts, if it mounts one. The
      player is mounted by its first render; when that throws, nothing is mounted
      and the exception leaves the render of the application\<close>
  "mountedPlayer a =
     (case derived a of
        Inl e \<Rightarrow> Inl e
      | Inr (ap, asb) \<Rightarrow>
          if isPlayerOpen a
          then (case renderPlayer (shots asb) initialPlayer of
                  Inl e \<Rightarrow> Inl e
                | Inr v \<Rightarrow> Inr (Some (shots asb, initialPlayer)))
          else Inr None)"


text \<open>An example store whose only storyboard has no shots yet.\<close>

definition blank_storyboard :: storyboard where
  "blank_storyboard = \<lparr>sb_id = ''sb-1'', sb_name = ''Main Storyboard'', shots = []\<rparr>"

definition blank_project :: project where
  "blank_project =
     \<lparr>proj_id = ''p-1'', proj_name = ''New Project'', storyboards = [blank_storyboard],
      activeStoryboardId = ''sb-1'', aspectRatio = R16_9\<rparr>"

definition blank_app :: app where
  "blank_app = initialApp (Some [blank_project])"

text \<open>
  The example store as a reload finds it when the saved projects no longer hold
  a project \<open>p-1\<close> (a project was added, which gave it an id made from the clock,
  and the first project deleted): \<open>activeProjectId\<close> starts as \<open>p-1\<close> again.
\<close>

definition reloaded_project :: project where
  "reloaded_project = abc_project\<lparr>proj_id := ''p-1762110000000''\<rparr>"

definition reloaded_app :: app where
  "reloaded_app = initialApp (Some [reloaded_project])"

text \<open>The example store with a second, empty storyboard.\<close>

definition second_storyboard :: storyboard where
  "second_storyboard = \<lparr>sb_id = ''sb-2'', sb_name = ''Storyboard 2'', shots = []\<rparr>"

definition two_board_project :: project where
  "two_board_project = abc_project\<lparr>storyboards := [abc_storyboard, second_storyboard]\<rparr>"

definition two_board_app :: app where
  "two_board_app = initialApp (Some [two_board_project])"


section \<open>Properties of the playback engine\<close>

lemma tick_index_bound:
  "tick ss st = Inr st' \<Longrightarrow> currentIndex st < length ss \<Longrightarrow> currentIndex st' < length ss"
  by (auto simp: tick_def Let_def currentShot_def split: if_splits)

lemma reach_index_bound:
  "reach ss st \<Longrightarrow> ss \<noteq> [] \<Longrightarrow> currentIndex st < length ss"
proof (induction rule: reach.induct)
  case reach_init
  then show ?case by (simp add: initialPlayer_def)
next
  case (reach_tick st st')
  then show ?case using tick_index_bound by blast
next
  case (reach_toggle st)
  then show ?case by (simp add: togglePlay_def)
qed

lemma foldl_duration: "foldl (\<lambda>acc s. acc + duration s) a xs = a + sum_list (map duration xs)"
  by (induction xs arbitrary: a) (simp_all add: add.assoc)

lemma totalDuration_sum: "totalDuration ss = sum_list (map duration ss)"
  by (simp add: totalDuration_def foldl_duration)

lemma startTime_spec: "currentShotStartTime ss st = spec_shotStartTime ss (currentIndex st)"
  by (simp add: currentShotStartTime_def spec_shotStartTime_def foldl_duration)

lemma tick_unfold:
  assumes "currentIndex st < length ss"
  shows "tick ss st =
     (if elapsedTime st + tick_seconds \<ge> spec_shotEndTime ss (currentIndex st)
      then (if Suc (currentIndex st) < length ss
            then Inr (st\<lparr>currentIndex := Suc (currentIndex st), elapsedTime := elapsedTime st + tick_seconds\<rparr>)
            else Inr (st\<lparr>isPlaying := False\<rparr>))
      else Inr (st\<lparr>elapsedTime := elapsedTime st + tick_seconds\<rparr>))"
  using assms
  by (auto simp: tick_def currentShot_def Let_def startTime_spec spec_shotEndTime_def)

lemma endTime_take:
  "i < length ss \<Longrightarrow> spec_shotEndTime ss i = sum_list (map duration (take (Suc i) ss))"
  by (simp add: spec_shotEndTime_def spec_shotStartTime_def take_Suc_conv_app_nth)

lemma run_stopped: "\<not> isPlaying st \<Longrightarrow> run n ss st = Inr st"
  by (cases n) simp_all

lemma run_add:
  "run (m + n) ss st = (case run m ss st of Inl e \<Rightarrow> Inl e | Inr st' \<Rightarrow> run n ss st')"
proof (induction m arbitrary: st)
  case 0
  show ?case by simp
next
  case (Suc m)
  show ?case
  proof (cases "isPlaying st")
    case True
    then show ?thesis using Suc by (simp split: sum.splits)
  next
    case False
    then show ?thesis by (simp add: run_stopped)
  qed
qed

lemma run_steady:
  assumes "currentIndex st < length ss" and "isPlaying st"
    and "elapsedTime st + of_nat k * tick_seconds < spec_shotEndTime ss (currentIndex st)"
  shows "run k ss st = Inr (st\<lparr>elapsedTime := elapsedTime st + of_nat k * tick_seconds\<rparr>)"
  using assms
proof (induction k arbitrary: st)
  case 0
  then show ?case by simp
next
  case (Suc k)
  have pos: "0 < tick_seconds" by (simp add: tick_seconds_def)
  let ?st = "st\<lparr>elapsedTime := elapsedTime st + tick_seconds\<rparr>"
  have lt: "elapsedTime st + tick_seconds < spec_shotEndTime ss (currentIndex st)"
  proof -
    have "0 \<le> of_nat k * tick_seconds" using pos by simp
    then have "elapsedTime st + tick_seconds \<le> elapsedTime st + of_nat (Suc k) * tick_seconds"
      by (simp add: algebra_simps)
    then show ?thesis using Suc.prems(3) by linarith
  qed
  have t: "tick ss st = Inr ?st"
    using Suc.prems(1) lt by (simp add: tick_unfold)
  have "run k ss ?st = Inr (?st\<lparr>elapsedTime := elapsedTime ?st + of_nat k * tick_seconds\<rparr>)"
    using Suc.prems by (intro Suc.IH) (simp_all add: algebra_simps)
  then show ?case using Suc.prems(2) t by (simp add: algebra_simps)
qed

lemma default_length: "length DEFAULT_SHOTS = 3"
  by (simp add: DEFAULT_SHOTS_def)

lemma default_durations: "map duration DEFAULT_SHOTS = [35 / 10, 20 / 10, 45 / 10]"
  by (simp add: DEFAULT_SHOTS_def)

lemma default_ends:
  "spec_shotEndTime DEFAULT_SHOTS 0 = 35 / 10"
  "spec_shotEndTime DEFAULT_SHOTS (Suc 0) = 55 / 10"
  "spec_shotEndTime DEFAULT_SHOTS 2 = 10"
  by (simp_all add: endTime_take default_length default_durations numeral_2_eq_2 flip: take_map)

lemma run_34: "run 34 DEFAULT_SHOTS initialPlayer = Inr \<lparr>currentIndex = 0, isPlaying = True, elapsedTime = 34/10\<rparr>"
  using run_steady[of initialPlayer DEFAULT_SHOTS 34]
  by (simp add: initialPlayer_def default_length default_ends tick_seconds_def)

lemma run_35: "run 35 DEFAULT_SHOTS initialPlayer = Inr \<lparr>currentIndex = 1, isPlaying = True, elapsedTime = 35/10\<rparr>"
  using run_add[of 34 1 DEFAULT_SHOTS initialPlayer]
  by (simp add: run_34 tick_unfold default_length default_ends tick_seconds_def)


lemma run_54: "run 54 DEFAULT_SHOTS initialPlayer = Inr \<lparr>currentIndex = 1, isPlaying = True, elapsedTime = 54/10\<rparr>"
  using run_add[of 35 19 DEFAULT_SHOTS initialPlayer]
    run_steady[of "\<lparr>currentIndex = 1, isPlaying = True, elapsedTime = 35/10\<rparr>" DEFAULT_SHOTS 19]
  by (simp add: run_35 default_length default_ends tick_seconds_def)

lemma run_55: "run 55 DEFAULT_SHOTS initialPlayer = Inr \<lparr>currentIndex = 2, isPlaying = True, elapsedTime = 55/10\<rparr>"
  using run_add[of 54 1 DEFAULT_SHOTS initialPlayer]
  by (simp add: run_54 tick_unfold default_length default_ends tick_seconds_def)

lemma run_99: "run 99 DEFAULT_SHOTS initialPlayer = Inr \<lparr>currentIndex = 2, isPlaying = True, elapsedTime = 99/10\<rparr>"
  using run_add[of 55 44 DEFAULT_SHOTS initialPlayer]
    run_steady[of "\<lparr>currentIndex = 2, isPlaying = True, elapsedTime = 55/10\<rparr>" DEFAULT_SHOTS 44]
  by (simp add: run_55 default_length default_ends tick_seconds_def)

lemma run_reach: "reach ss st \<Longrightarrow> run n ss st = Inr st' \<Longrightarrow> reach ss st'"
proof (induction n arbitrary: st)
  case 0
  then show ?case by simp
next
  case (Suc n)
  show ?case
  proof (cases "isPlaying st")
    case False
    then show ?thesis using Suc.prems by simp
  next
    case True
    then obtain st1 where t: "tick ss st = Inr st1" and r: "run n ss st1 = Inr st'"
      using Suc.prems(2) by (auto split: sum.splits)
    have "reach ss st1" using Suc.prems(1) True t by (rule reach_tick)
    then show ?thesis using r by (rule Suc.IH)
  qed
qed

text \<open>
  Claim C2. Over a non-empty shot sequence, every state the open player reaches
  (by ticks while playing and by play/pause) has \<open>0 \<le> currentIndex < length\<close>:
  \<open>shots[currentIndex]\<close> is defined, it is the one current shot, and the next
  tick does not fail.
\<close>

theorem current_index_in_range:
  assumes "ss \<noteq> []" and "reach ss st"
  shows "0 \<le> currentIndex st \<and> currentIndex st < length ss
         \<and> currentShot ss st = Some (ss ! currentIndex st)
         \<and> (\<exists>!s. currentShot ss st = Some s)
         \<and> (\<exists>st'. tick ss st = Inr st')"
proof -
  have idx: "currentIndex st < length ss"
    using assms(2) assms(1) by (rule reach_index_bound)
  then have "currentShot ss st = Some (ss ! currentIndex st)"
    by (simp add: currentShot_def)
  moreover have "\<exists>st'. tick ss st = Inr st'"
    using idx by (simp add: tick_unfold)
  ultimately show ?thesis using idx by simp
qed


lemma reach_99: "reach DEFAULT_SHOTS \<lparr>currentIndex = 2, isPlaying = True, elapsedTime = 99 / 10\<rparr>"
  using run_reach[OF reach_init run_99] .

theorem current_index_in_range_witness:
  "DEFAULT_SHOTS \<noteq> []
   \<and> reach DEFAULT_SHOTS \<lparr>currentIndex = 2, isPlaying = True, elapsedTime = 99 / 10\<rparr>
   \<and> currentShot DEFAULT_SHOTS \<lparr>currentIndex = 2, isPlaying = True, elapsedTime = 99 / 10\<rparr>
       = Some (DEFAULT_SHOTS ! 2)"
proof -
  have ne: "DEFAULT_SHOTS \<noteq> []" using default_length by auto
  show ?thesis
    using current_index_in_range[OF ne reach_99] ne reach_99 by simp
qed




section \<open>Properties of rounding to a double\<close>

text \<open>
  \<open>rne\<close> rounds to a nearest integer and is monotone; \<open>ilog2\<close> is the binary
  exponent; \<open>round64\<close> of a positive number stays in the closed binade of its
  argument, is monotone on the non-negative numbers and leaves a double as it is.
\<close>

lemma rne_of_int: "rne (of_int n) = n"
  by (simp add: rne_def)

lemma rne_floor: "\<lfloor>m\<rfloor> \<le> rne m \<and> rne m \<le> \<lfloor>m\<rfloor> + 1"
  by (simp add: rne_def Let_def)

lemma rne_nearest:
  assumes "\<bar>m - of_int n\<bar> < 1 / 2"
  shows "rne m = n"
proof (cases "of_int n \<le> m")
  case True
  then have f: "\<lfloor>m\<rfloor> = n" using assms by (intro floor_unique) auto
  then show ?thesis using assms True by (simp add: rne_def Let_def)
next
  case False
  then have f: "\<lfloor>m\<rfloor> = n - 1" using assms by (intro floor_unique) auto
  then show ?thesis using assms False by (auto simp: rne_def Let_def)
qed

lemma rne_mono:
  assumes "m \<le> m'"
  shows "rne m \<le> rne m'"
proof (cases "\<lfloor>m\<rfloor> = \<lfloor>m'\<rfloor>")
  case True
  then show ?thesis using assms by (auto simp: rne_def Let_def)
next
  case False
  then have "\<lfloor>m\<rfloor> + 1 \<le> \<lfloor>m'\<rfloor>" using assms floor_mono[of m m'] by linarith
  then show ?thesis using rne_floor[of m] rne_floor[of m'] by linarith
qed

lemma pow2_pos: "0 < (2::rat) powi k"
  by simp

lemma pow2_mono: "k \<le> l \<Longrightarrow> (2::rat) powi k \<le> 2 powi l"
  by (rule power_int_increasing) simp_all

lemma pow2_strict: "k < l \<Longrightarrow> (2::rat) powi k < 2 powi l"
  by (rule power_int_strict_increasing) simp_all

lemma pow2_Suc: "(2::rat) powi (k + 1) = 2 * 2 powi k"
  by (simp add: power_int_add)

lemma ilog2_unique:
  assumes "(2::rat) powi e \<le> x" "x < 2 powi (e + 1)" "2 powi e' \<le> x" "x < 2 powi (e' + 1)"
  shows "e = e'"
proof (rule ccontr)
  assume "e \<noteq> e'"
  then consider "e + 1 \<le> e'" | "e' + 1 \<le> e" by linarith
  then show False
  proof cases
    case 1
    then have "(2::rat) powi (e + 1) \<le> 2 powi e'" by (rule pow2_mono)
    then show False using assms by linarith
  next
    case 2
    then have "(2::rat) powi (e' + 1) \<le> 2 powi e" by (rule pow2_mono)
    then show False using assms by linarith
  qed
qed

lemma ilog2_bounds:
  assumes "0 < x"
  shows "2 powi (ilog2 x) \<le> x \<and> x < 2 powi (ilog2 x + 1)"
proof (cases "1 \<le> x")
  case True
  define n where "n = \<lfloor>x\<rfloor>"
  have n: "0 < n" using True by (simp add: n_def)
  have L: "1 \<le> bitlen n" using n bitlen_eq_zero_iff[of n] bitlen_nonneg[of n] by linarith
  from bitlen_bounds[OF n] have b: "2 ^ nat (bitlen n - 1) \<le> n" "n < 2 ^ nat (bitlen n)" by auto
  have b3: "n + 1 \<le> 2 ^ nat (bitlen n)" using b(2) by simp
  have "(2::rat) powi (bitlen n - 1) = of_int (2 ^ nat (bitlen n - 1))"
    using L by (simp add: power_int_def)
  also have "\<dots> \<le> of_int n" using b(1) by (simp only: of_int_le_iff)
  also have "\<dots> \<le> x" by (simp add: n_def)
  finally have lo: "(2::rat) powi (bitlen n - 1) \<le> x" .
  have "x < of_int (n + 1)" using floor_correct[of x] by (simp add: n_def)
  also have "\<dots> \<le> of_int (2 ^ nat (bitlen n))" using b3 by (simp only: of_int_le_iff)
  also have "\<dots> = (2::rat) powi (bitlen n - 1 + 1)" using L by (simp add: power_int_def)
  finally have hi: "x < (2::rat) powi (bitlen n - 1 + 1)" .
  have "ilog2 x = bitlen n - 1" using True lo by (simp add: ilog2_def n_def)
  then show ?thesis using lo hi by simp
next
  case False
  then have x1: "x < 1" by simp
  define y where "y = 1 / x"
  define n where "n = \<lfloor>y\<rfloor>"
  have y1: "1 < y" using assms x1 by (simp add: y_def)
  have n: "0 < n" using y1 by (simp add: n_def)
  have L: "1 \<le> bitlen n" using n bitlen_eq_zero_iff[of n] bitlen_nonneg[of n] by linarith
  from bitlen_bounds[OF n] have b: "2 ^ nat (bitlen n - 1) \<le> n" "n < 2 ^ nat (bitlen n)" by auto
  have b3: "n + 1 \<le> 2 ^ nat (bitlen n)" using b(2) by simp
  define k where "k = 1 - bitlen n"
  have "of_int (2 ^ nat (bitlen n - 1)) \<le> (of_int n :: rat)" using b(1) by (simp only: of_int_le_iff)
  also have "\<dots> \<le> y" by (simp add: n_def)
  finally have "(2::rat) ^ nat (bitlen n - 1) \<le> y" by simp
  then have "(2::rat) powi (- k) \<le> y" using L by (simp add: k_def power_int_def)
  then have up: "x \<le> 2 powi k"
    using assms by (simp add: y_def power_int_minus field_simps)
  have "y < of_int (n + 1)" using floor_correct[of y] by (simp add: n_def)
  also have "\<dots> \<le> of_int (2 ^ nat (bitlen n))" using b3 by (simp only: of_int_le_iff)
  finally have "y < (2::rat) ^ nat (bitlen n)" by simp
  then have "y < (2::rat) powi (1 - k)" using L by (simp add: k_def power_int_def)
  then have "1 < x * 2 powi (1 - k)" using assms by (simp add: y_def field_simps)
  then have "2 powi (k - 1) * 1 < 2 powi (k - 1) * (x * 2 powi (1 - k))"
    by (rule mult_strict_left_mono) simp
  moreover have "(2::rat) powi (k - 1) * 2 powi (1 - k) = 1"
    by (simp flip: power_int_add)
  ultimately have lo: "2 powi (k - 1) < x"
    by (simp add: mult.assoc mult.left_commute)
  have il: "ilog2 x = (if 2 powi k \<le> x then k else k - 1)"
    using False by (simp add: ilog2_def k_def n_def y_def)
  show ?thesis
  proof (cases "2 powi k \<le> x")
    case True
    then have "x < 2 powi (k + 1)" using up pow2_strict[of k "k + 1"] by linarith
    then show ?thesis using True il by simp
  next
    case False
    then show ?thesis using lo il by simp
  qed
qed

lemma ilog2_eqI:
  assumes "(2::rat) powi e \<le> x" and "x < 2 powi (e + 1)"
  shows "ilog2 x = e"
proof -
  have "0 < x" using assms(1) pow2_pos[of e] by linarith
  then show ?thesis using ilog2_bounds[of x] ilog2_unique[of "ilog2 x" x e] assms by blast
qed


lemma round64_pos:
  "0 < x \<Longrightarrow> round64 x = of_int (rne (x / 2 powi (ilog2 x - 52))) * 2 powi (ilog2 x - 52)"
  by (simp add: round64_def Let_def)

lemma round64_eqI:
  assumes "(2::rat) powi e \<le> x" and "x < 2 powi (e + 1)"
    and "\<bar>x / 2 powi (e - 52) - of_int n\<bar> < 1 / 2"
  shows "round64 x = of_int n * 2 powi (e - 52)"
proof -
  have "0 < x" using assms(1) pow2_pos[of e] by linarith
  moreover have "ilog2 x = e" using assms(1,2) by (rule ilog2_eqI)
  moreover have "rne (x / 2 powi (e - 52)) = n" using assms(3) by (rule rne_nearest)
  ultimately show ?thesis by (simp add: round64_pos)
qed

lemma pow2_split: "(2::rat) powi e = 2 ^ 52 * 2 powi (e - 52)"
proof -
  have "(2::rat) powi e = 2 powi (52 + (e - 52))" by simp
  also have "\<dots> = 2 powi 52 * 2 powi (e - 52)" by (rule power_int_add) simp
  finally show ?thesis by simp
qed

lemma round64_range:
  assumes "0 < x"
  shows "2 powi (ilog2 x) \<le> round64 x" and "round64 x \<le> 2 powi (ilog2 x + 1)"
    and "2 ^ 52 \<le> rne (x / 2 powi (ilog2 x - 52))"
    and "rne (x / 2 powi (ilog2 x - 52)) \<le> 2 ^ 53"
proof -
  define e where "e = ilog2 x"
  define q :: rat where "q = 2 powi (e - 52)"
  have q: "0 < q" by (simp add: q_def)
  have b: "2 powi e \<le> x" "x < 2 powi (e + 1)" using ilog2_bounds[OF assms] by (simp_all add: e_def)
  have e1: "(2::rat) powi e = 2 ^ 52 * q" unfolding q_def by (rule pow2_split)
  have e2: "(2::rat) powi (e + 1) = 2 ^ 53 * q" using e1 by (simp add: pow2_Suc)
  have "of_int (2 ^ 52) \<le> x / q" using b(1) q by (simp add: e1 field_simps)
  then have "rne (of_int (2 ^ 52)) \<le> rne (x / q)" by (rule rne_mono)
  then have lo: "2 ^ 52 \<le> rne (x / q)" by (simp only: rne_of_int)
  have "x < 2 ^ 53 * q" using b(2) by (simp only: e2)
  then have "x / q \<le> of_int (2 ^ 53)" using q by (simp add: field_simps)
  then have "rne (x / q) \<le> rne (of_int (2 ^ 53))" by (rule rne_mono)
  then have hi: "rne (x / q) \<le> 2 ^ 53" by (simp only: rne_of_int)
  have r: "round64 x = of_int (rne (x / q)) * q"
    using assms by (simp add: round64_pos q_def e_def)
  have "(2::rat) ^ 52 * q \<le> of_int (rne (x / q)) * q"
  proof (rule mult_right_mono)
    have "(of_int (2 ^ 52) :: rat) \<le> of_int (rne (x / q))" using lo by (simp only: of_int_le_iff)
    then show "(2::rat) ^ 52 \<le> of_int (rne (x / q))" by simp
  qed (use q in simp)
  then show "2 powi (ilog2 x) \<le> round64 x" using r e1 by (simp add: e_def)
  have "of_int (rne (x / q)) * q \<le> (2::rat) ^ 53 * q"
  proof (rule mult_right_mono)
    have "(of_int (rne (x / q)) :: rat) \<le> of_int (2 ^ 53)" using hi by (simp only: of_int_le_iff)
    then show "of_int (rne (x / q)) \<le> (2::rat) ^ 53" by simp
  qed (use q in simp)
  then show "round64 x \<le> 2 powi (ilog2 x + 1)" using r e2 by (simp add: e_def)
  show "2 ^ 52 \<le> rne (x / 2 powi (ilog2 x - 52))" using lo by (simp add: q_def e_def)
  show "rne (x / 2 powi (ilog2 x - 52)) \<le> 2 ^ 53" using hi by (simp add: q_def e_def)
qed

lemma round64_nonneg: "0 \<le> x \<Longrightarrow> 0 \<le> round64 x"
proof (cases "x = 0")
  case True
  then show ?thesis by (simp add: round64_def)
next
  case False
  assume "0 \<le> x"
  then have "0 < x" using False by simp
  then show ?thesis using round64_range(1)[of x] pow2_pos[of "ilog2 x"] by linarith
qed

lemma round64_mono:
  assumes "0 \<le> x" and "x \<le> y"
  shows "round64 x \<le> round64 y"
proof (cases "x = 0")
  case True
  then show ?thesis using assms round64_nonneg[of y] by (simp add: round64_def)
next
  case False
  then have x: "0 < x" and y: "0 < y" using assms by simp_all
  have bx: "2 powi (ilog2 x) \<le> x" "x < 2 powi (ilog2 x + 1)" using ilog2_bounds[OF x] by simp_all
  have by': "2 powi (ilog2 y) \<le> y" "y < 2 powi (ilog2 y + 1)" using ilog2_bounds[OF y] by simp_all
  have le: "ilog2 x \<le> ilog2 y"
  proof (rule ccontr)
    assume "\<not> ilog2 x \<le> ilog2 y"
    then have "ilog2 y + 1 \<le> ilog2 x" by simp
    then have "(2::rat) powi (ilog2 y + 1) \<le> 2 powi (ilog2 x)" by (rule pow2_mono)
    then show False using bx by' assms(2) by linarith
  qed
  show ?thesis
  proof (cases "ilog2 x = ilog2 y")
    case True
    define q :: rat where "q = 2 powi (ilog2 y - 52)"
    have q: "0 < q" by (simp add: q_def)
    have "x / q \<le> y / q" using assms(2) q by (simp add: divide_right_mono)
    then have "rne (x / q) \<le> rne (y / q)" by (rule rne_mono)
    then have "(of_int (rne (x / q)) :: rat) \<le> of_int (rne (y / q))" by (simp only: of_int_le_iff)
    then have "of_int (rne (x / q)) * q \<le> of_int (rne (y / q)) * q"
      using q by (simp add: mult_right_mono)
    then show ?thesis using x y True by (simp add: round64_pos q_def)
  next
    case False
    then have "ilog2 x + 1 \<le> ilog2 y" using le by simp
    then have "(2::rat) powi (ilog2 x + 1) \<le> 2 powi (ilog2 y)" by (rule pow2_mono)
    then show ?thesis using round64_range(2)[OF x] round64_range(1)[OF y] by linarith
  qed
qed

lemma round64_idem:
  assumes "0 \<le> x"
  shows "round64 (round64 x) = round64 x"
proof (cases "x = 0")
  case True
  then show ?thesis by (simp add: round64_def)
next
  case False
  then have x: "0 < x" using assms by simp
  define e where "e = ilog2 x"
  define q :: rat where "q = 2 powi (e - 52)"
  define n where "n = rne (x / q)"
  have q: "0 < q" by (simp add: q_def)
  have r: "round64 x = of_int n * q" using x by (simp add: round64_pos q_def e_def n_def)
  have n: "2 ^ 52 \<le> n" "n \<le> 2 ^ 53"
    using round64_range(3,4)[OF x] by (simp_all add: n_def q_def e_def)
  have e1: "(2::rat) powi e = 2 ^ 52 * q" unfolding q_def by (rule pow2_split)
  have e2: "(2::rat) powi (e + 1) = 2 ^ 53 * q" using e1 by (simp add: pow2_Suc)
  show ?thesis
  proof (cases "n = 2 ^ 53")
    case True
    have rr: "round64 x = 2 powi (e + 1)" using r True e2 by simp
    have q': "(2::rat) powi (e + 1 - 52) = 2 * q" unfolding q_def using pow2_Suc[of "e - 52"] by simp
    have "round64 (2 powi (e + 1)) = of_int (2 ^ 52) * 2 powi (e + 1 - 52)"
    proof (rule round64_eqI)
      show "(2::rat) powi (e + 1) \<le> 2 powi (e + 1)" by simp
      show "(2::rat) powi (e + 1) < 2 powi (e + 1 + 1)" by (rule pow2_strict) simp
      have "(2::rat) powi (e + 1) / 2 powi (e + 1 - 52) = 2 ^ 53 * q / (2 * q)"
        by (simp only: e2 q')
      also have "\<dots> = of_int (2 ^ 52)" using q by simp
      finally show "\<bar>(2::rat) powi (e + 1) / 2 powi (e + 1 - 52) - of_int (2 ^ 52)\<bar> < 1 / 2"
        by simp
    qed
    then show ?thesis using rr e2 q' by simp
  next
    case False
    then have n2: "n < 2 ^ 53" using n(2) by simp
    have "round64 (of_int n * q) = of_int n * 2 powi (e - 52)"
    proof (rule round64_eqI)
      have "(of_int (2 ^ 52) :: rat) \<le> of_int n" using n(1) by (simp only: of_int_le_iff)
      then have "(2::rat) ^ 52 * q \<le> of_int n * q" using q by (simp add: mult_right_mono)
      then show "2 powi e \<le> of_int n * q" using e1 by simp
      have "(of_int n :: rat) < of_int (2 ^ 53)" using n2 by (simp only: of_int_less_iff)
      then have "of_int n * q < (2::rat) ^ 53 * q" using q by (simp add: mult_strict_right_mono)
      then show "of_int n * q < 2 powi (e + 1)" using e2 by simp
      show "\<bar>of_int n * q / 2 powi (e - 52) - of_int n\<bar> < 1 / 2"
        using q by (simp add: q_def)
    qed
    then show ?thesis using r by (simp add: q_def)
  qed
qed

lemma fadd_ge:
  assumes "0 \<le> t" and "round64 t = t" and "0 \<le> c"
  shows "t \<le> fadd t c"
proof -
  have "round64 t \<le> round64 (t + c)" using assms(1,3) by (intro round64_mono) simp_all
  then show ?thesis using assms(2) by (simp add: fadd_def)
qed

text \<open>
  How a rounding is computed in the proofs below: from the exponent (as
  \<open>k = 52 - e\<close>) and the integer significand, which the hypotheses check.
\<close>

lemma round64_eval:
  fixes k :: nat
  assumes "2 ^ 52 \<le> s * 2 ^ k" and "s * 2 ^ k < 2 ^ 53"
    and "\<bar>s * 2 ^ k - of_int n\<bar> < 1 / 2"
  shows "round64 s = of_int n / 2 ^ k"
proof -
  define e where "e = 52 - int k"
  have q: "(2::rat) powi (e - 52) = 1 / 2 ^ k"
    by (simp add: e_def power_int_minus field_simps)
  have e1: "(2::rat) powi e = 2 ^ 52 / 2 ^ k"
    using pow2_split[of e] by (simp add: q)
  have e2: "(2::rat) powi (e + 1) = 2 ^ 53 / 2 ^ k"
    using e1 by (simp add: pow2_Suc)
  have "round64 s = of_int n * 2 powi (e - 52)"
  proof (rule round64_eqI)
    show "2 powi e \<le> s" using assms(1) by (simp add: e1 field_simps)
    show "s < 2 powi (e + 1)" using assms(2) by (simp only: e2) (simp add: field_simps)
    show "\<bar>s / 2 powi (e - 52) - of_int n\<bar> < 1 / 2" using assms(3) by (simp add: q)
  qed
  then show ?thesis by (simp add: q)
qed

lemma fadd_eval:
  fixes k :: nat
  assumes "2 ^ 52 \<le> (x + y) * 2 ^ k" and "(x + y) * 2 ^ k < 2 ^ 53"
    and "\<bar>(x + y) * 2 ^ k - of_int n\<bar> < 1 / 2" and "r = of_int n / 2 ^ k"
  shows "fadd x y = r"
  unfolding fadd_def assms(4) using assms(1-3) by (rule round64_eval)

lemma rne_half: "rne (of_int f + 1 / 2) = (if even f then f else f + 1)"
proof -
  have "\<lfloor>rat_of_int f + 1 / 2\<rfloor> = f" by linarith
  then show ?thesis by (simp add: rne_def Let_def)
qed

lemma fadd_tie:
  fixes k :: nat
  assumes "2 ^ 52 \<le> (x + y) * 2 ^ k" and "(x + y) * 2 ^ k < 2 ^ 53"
    and "(x + y) * 2 ^ k = of_int f + 1 / 2"
    and "r = of_int (if even f then f else f + 1) / 2 ^ k"
  shows "fadd x y = r"
proof -
  define e where "e = 52 - int k"
  have q: "(2::rat) powi (e - 52) = 1 / 2 ^ k"
    by (simp add: e_def power_int_minus field_simps)
  have e1: "(2::rat) powi e = 2 ^ 52 / 2 ^ k"
    using pow2_split[of e] by (simp add: q)
  have e2: "(2::rat) powi (e + 1) = 2 ^ 53 / 2 ^ k"
    using e1 by (simp add: pow2_Suc)
  have lo: "2 powi e \<le> x + y" using assms(1) by (simp add: e1 field_simps)
  have hi: "x + y < 2 powi (e + 1)" using assms(2) by (simp only: e2) (simp add: field_simps)
  have pos: "0 < x + y" using lo pow2_pos[of e] by linarith
  have il: "ilog2 (x + y) = e" using lo hi by (rule ilog2_eqI)
  have "(x + y) / 2 powi (e - 52) = of_int f + 1 / 2" using assms(3) by (simp add: q)
  then have "rne ((x + y) / 2 powi (e - 52)) = (if even f then f else f + 1)"
    by (simp only: rne_half)
  then show ?thesis
    unfolding fadd_def assms(4) using pos il by (simp add: round64_pos q)
qed

section \<open>Properties of the playback engine in double arithmetic\<close>

lemma fadd_nonneg: "0 \<le> x \<Longrightarrow> 0 \<le> y \<Longrightarrow> 0 \<le> fadd x y"
  by (simp add: fadd_def round64_nonneg)

lemma fadd_double: "0 \<le> x \<Longrightarrow> 0 \<le> y \<Longrightarrow> round64 (fadd x y) = fadd x y"
  by (simp add: fadd_def round64_idem)

lemma fadd_mono: "0 \<le> x \<Longrightarrow> 0 \<le> y \<Longrightarrow> x \<le> x' \<Longrightarrow> y \<le> y' \<Longrightarrow> fadd x y \<le> fadd x' y'"
  unfolding fadd_def by (rule round64_mono) simp_all

lemma tick_seconds64_val: "tick_seconds64 = 3602879701896397 / 36028797018963968"
  unfolding tick_seconds64_def
  by (rule round64_eval[where k = 56 and n = 7205759403792794, THEN trans]) simp_all

lemma tick_seconds64_pos: "0 < tick_seconds64"
  by (simp add: tick_seconds64_val)

lemma sums64_snoc:
  "i < length ss \<Longrightarrow>
   foldl (\<lambda>acc s. fadd acc (duration s)) 0 (take (Suc i) ss)
     = fadd (foldl (\<lambda>acc s. fadd acc (duration s)) 0 (take i ss)) (duration (ss ! i))"
  by (simp add: take_Suc_conv_app_nth)

lemma endTime64_take:
  "i < length ss \<Longrightarrow>
   shotEndTime64 ss i = foldl (\<lambda>acc s. fadd acc (duration s)) 0 (take (Suc i) ss)"
  by (simp add: shotEndTime64_def sums64_snoc)

lemma tick64_unfold:
  assumes "currentIndex st < length ss"
  shows "tick64 ss st =
     (if shotEndTime64 ss (currentIndex st) \<le> fadd (elapsedTime st) tick_seconds64
      then (if Suc (currentIndex st) < length ss
            then Inr (st\<lparr>currentIndex := Suc (currentIndex st),
                         elapsedTime := fadd (elapsedTime st) tick_seconds64\<rparr>)
            else Inr (st\<lparr>isPlaying := False\<rparr>))
      else Inr (st\<lparr>elapsedTime := fadd (elapsedTime st) tick_seconds64\<rparr>))"
  using assms
  by (auto simp: tick64_def currentShot_def Let_def currentShotStartTime64_def shotEndTime64_def)

lemma tick64_index_bound:
  "tick64 ss st = Inr st' \<Longrightarrow> currentIndex st < length ss \<Longrightarrow> currentIndex st' < length ss"
  by (auto simp: tick64_unfold split: if_splits)

lemma reach64_index_bound:
  "reach64 ss st \<Longrightarrow> ss \<noteq> [] \<Longrightarrow> currentIndex st < length ss"
proof (induction rule: reach64.induct)
  case reach64_init
  then show ?case by (simp add: initialPlayer_def)
next
  case (reach64_tick st st')
  then show ?case using tick64_index_bound by blast
next
  case (reach64_toggle st)
  then show ?case by (simp add: togglePlay_def)
qed

text \<open>
  The index bound and the single step of the callback hold of the rounded
  arithmetic as they do of the exact one: over a non-empty sequence every
  reachable state has its index inside the sequence, and a tick while playing
  adds the (rounded) tick interval unless it ends playback, moves the index by
  exactly one at the end of a shot that is not the last, and at the end of the
  last shot clears \<open>isPlaying\<close> and leaves \<open>elapsedTime\<close>.
\<close>

lemma tick64_step:
  assumes "ss \<noteq> []" and "reach64 ss st"
  shows "currentIndex st < length ss \<and> currentShot ss st = Some (ss ! currentIndex st)
    \<and> (\<exists>st'. tick64 ss st = Inr st' \<and>
      (fadd (elapsedTime st) tick_seconds64 < shotEndTime64 ss (currentIndex st)
         \<longrightarrow> st' = st\<lparr>elapsedTime := fadd (elapsedTime st) tick_seconds64\<rparr>) \<and>
      (shotEndTime64 ss (currentIndex st) \<le> fadd (elapsedTime st) tick_seconds64
         \<and> Suc (currentIndex st) < length ss
         \<longrightarrow> st' = st\<lparr>currentIndex := currentIndex st + 1,
                       elapsedTime := fadd (elapsedTime st) tick_seconds64\<rparr>) \<and>
      (shotEndTime64 ss (currentIndex st) \<le> fadd (elapsedTime st) tick_seconds64
         \<and> Suc (currentIndex st) = length ss
         \<longrightarrow> st' = st\<lparr>isPlaying := False\<rparr>))"
proof -
  have idx: "currentIndex st < length ss"
    using assms(2) assms(1) by (rule reach64_index_bound)
  show ?thesis using idx by (simp add: tick64_unfold currentShot_def)
qed

lemma sums64_nonneg:
  "\<forall>s\<in>set xs. 0 \<le> duration s \<Longrightarrow> 0 \<le> a \<Longrightarrow>
   0 \<le> foldl (\<lambda>acc s. fadd acc (duration s)) a xs"
  by (induction xs arbitrary: a) (simp_all add: fadd_nonneg)

lemma sums64_double:
  assumes "\<forall>s\<in>set xs. 0 \<le> duration s"
  shows "round64 (foldl (\<lambda>acc s. fadd acc (duration s)) 0 xs)
         = foldl (\<lambda>acc s. fadd acc (duration s)) 0 xs"
proof (cases xs rule: rev_cases)
  case Nil
  then show ?thesis by (simp add: round64_def)
next
  case (snoc ys y)
  have "0 \<le> foldl (\<lambda>acc s. fadd acc (duration s)) 0 ys"
    using assms snoc by (intro sums64_nonneg) simp_all
  moreover have "0 \<le> duration y" using assms snoc by simp
  ultimately show ?thesis using snoc by (simp add: fadd_double)
qed

lemma sums64_step:
  assumes "\<forall>s\<in>set ss. 0 \<le> duration s" and "i < length ss"
  shows "foldl (\<lambda>acc s. fadd acc (duration s)) 0 (take i ss)
         \<le> foldl (\<lambda>acc s. fadd acc (duration s)) 0 (take (Suc i) ss)"
proof -
  have nn: "\<forall>s\<in>set (take i ss). 0 \<le> duration s"
    using assms(1) by (auto dest: in_set_takeD)
  have "0 \<le> foldl (\<lambda>acc s. fadd acc (duration s)) 0 (take i ss)"
    using nn by (intro sums64_nonneg) simp_all
  moreover have "round64 (foldl (\<lambda>acc s. fadd acc (duration s)) 0 (take i ss))
                 = foldl (\<lambda>acc s. fadd acc (duration s)) 0 (take i ss)"
    using nn by (rule sums64_double)
  moreover have "0 \<le> duration (ss ! i)" using assms by simp
  ultimately show ?thesis using assms(2) by (simp only: sums64_snoc fadd_ge)
qed

lemma sums64_mono:
  assumes "\<forall>s\<in>set ss. 0 \<le> duration s" and "i \<le> j" and "j \<le> length ss"
  shows "foldl (\<lambda>acc s. fadd acc (duration s)) 0 (take i ss)
         \<le> foldl (\<lambda>acc s. fadd acc (duration s)) 0 (take j ss)"
  using assms(2,3)
proof (induction rule: dec_induct)
  case base
  show ?case by simp
next
  case (step n)
  have "foldl (\<lambda>acc s. fadd acc (duration s)) 0 (take n ss)
        \<le> foldl (\<lambda>acc s. fadd acc (duration s)) 0 (take (Suc n) ss)"
    using assms(1) step.prems by (intro sums64_step) simp_all
  moreover have "foldl (\<lambda>acc s. fadd acc (duration s)) 0 (take i ss)
        \<le> foldl (\<lambda>acc s. fadd acc (duration s)) 0 (take n ss)"
    using step.prems by (intro step.IH) simp
  ultimately show ?case by linarith
qed

lemma endTime64_le_total:
  assumes "\<forall>s\<in>set ss. 0 \<le> duration s" and "i < length ss"
  shows "shotEndTime64 ss i \<le> totalDuration64 ss"
proof -
  have "foldl (\<lambda>acc s. fadd acc (duration s)) 0 (take (Suc i) ss)
        \<le> foldl (\<lambda>acc s. fadd acc (duration s)) 0 (take (length ss) ss)"
    using assms by (intro sums64_mono) simp_all
  then show ?thesis using assms(2) by (simp add: endTime64_take totalDuration64_def)
qed

lemma endTime64_Suc:
  "Suc i < length ss \<Longrightarrow>
   shotEndTime64 ss (Suc i) = fadd (shotEndTime64 ss i) (duration (ss ! Suc i))"
  using Suc_lessD[of "Suc i" "length ss"]
  by (simp only: endTime64_take sums64_snoc)

lemma reach64_bounds:
  assumes ne: "ss \<noteq> []" and long: "\<forall>s\<in>set ss. tick_seconds64 \<le> duration s"
    and r: "reach64 ss st"
  shows "0 \<le> elapsedTime st \<and> elapsedTime st \<le> shotEndTime64 ss (currentIndex st)"
  using r
proof (induction rule: reach64.induct)
  case reach64_init
  have "hd ss \<in> set ss" using ne by simp
  then have "tick_seconds64 \<le> duration (ss ! 0)" using long ne by (simp add: hd_conv_nth)
  then have "0 \<le> duration (ss ! 0)" using tick_seconds64_pos by linarith
  then have "0 \<le> fadd 0 (duration (ss ! 0))" by (intro fadd_nonneg) simp_all
  then show ?case by (simp add: initialPlayer_def shotEndTime64_def)
next
  case (reach64_tick st st')
  have idx: "currentIndex st < length ss"
    using reach64_tick.hyps(1) ne by (rule reach64_index_bound)
  have nn: "0 \<le> fadd (elapsedTime st) tick_seconds64"
    using reach64_tick.IH tick_seconds64_pos by (intro fadd_nonneg) simp_all
  show ?case
  proof (cases "shotEndTime64 ss (currentIndex st) \<le> fadd (elapsedTime st) tick_seconds64")
    case False
    then show ?thesis using reach64_tick.hyps(3) idx nn by (auto simp: tick64_unfold)
  next
    case cross: True
    show ?thesis
    proof (cases "Suc (currentIndex st) < length ss")
      case True
      then have d: "tick_seconds64 \<le> duration (ss ! Suc (currentIndex st))"
        using long by simp
      have st': "st' = st\<lparr>currentIndex := Suc (currentIndex st),
                           elapsedTime := fadd (elapsedTime st) tick_seconds64\<rparr>"
        using reach64_tick.hyps(3) idx cross True by (simp add: tick64_unfold)
      have "fadd (elapsedTime st) tick_seconds64
            \<le> fadd (shotEndTime64 ss (currentIndex st)) (duration (ss ! Suc (currentIndex st)))"
        using reach64_tick.IH tick_seconds64_pos d by (intro fadd_mono) simp_all
      then show ?thesis using st' nn True by (simp add: endTime64_Suc)
    next
      case False
      then have "st' = st\<lparr>isPlaying := False\<rparr>"
        using reach64_tick.hyps(3) idx cross by (simp add: tick64_unfold)
      then show ?thesis using reach64_tick.IH by simp
    qed
  qed
next
  case (reach64_toggle st)
  then show ?case by (simp add: togglePlay_def)
qed

lemma run64_stopped: "\<not> isPlaying st \<Longrightarrow> run64 n ss st = Inr st"
  by (cases n) simp_all

lemma run64_add:
  "run64 (m + n) ss st = (case run64 m ss st of Inl e \<Rightarrow> Inl e | Inr st' \<Rightarrow> run64 n ss st')"
proof (induction m arbitrary: st)
  case 0
  show ?case by simp
next
  case (Suc m)
  show ?case
  proof (cases "isPlaying st")
    case True
    then show ?thesis using Suc by (simp split: sum.splits)
  next
    case False
    then show ?thesis by (simp add: run64_stopped)
  qed
qed

lemma run64_reach: "reach64 ss st \<Longrightarrow> run64 n ss st = Inr st' \<Longrightarrow> reach64 ss st'"
proof (induction n arbitrary: st)
  case 0
  then show ?case by simp
next
  case (Suc n)
  show ?case
  proof (cases "isPlaying st")
    case False
    then show ?thesis using Suc.prems by simp
  next
    case True
    then obtain st1 where t: "tick64 ss st = Inr st1" and r: "run64 n ss st1 = Inr st'"
      using Suc.prems(2) by (auto split: sum.splits)
    have "reach64 ss st1" using Suc.prems(1) True t by (rule reach64_tick)
    then show ?thesis using r by (rule Suc.IH)
  qed
qed

lemma ticks64_double: "0 \<le> ticks64 n \<and> round64 (ticks64 n) = ticks64 n"
proof (induction n)
  case 0
  show ?case by (simp add: round64_def)
next
  case (Suc n)
  then show ?case using tick_seconds64_pos by (simp add: fadd_nonneg fadd_double)
qed

lemma ticks64_mono: "m \<le> n \<Longrightarrow> ticks64 m \<le> ticks64 n"
proof (rule lift_Suc_mono_le)
  fix k
  show "ticks64 k \<le> ticks64 (Suc k)"
    using ticks64_double[of k] tick_seconds64_pos by (simp add: fadd_ge)
qed

lemma run64_steady:
  assumes "currentIndex st < length ss" and "isPlaying st"
    and "elapsedTime st = ticks64 m"
    and "ticks64 (m + k) < shotEndTime64 ss (currentIndex st)"
  shows "run64 k ss st = Inr (st\<lparr>elapsedTime := ticks64 (m + k)\<rparr>)"
  using assms
proof (induction k arbitrary: st m)
  case 0
  then show ?case by simp
next
  case (Suc k)
  let ?st = "st\<lparr>elapsedTime := ticks64 (Suc m)\<rparr>"
  have "ticks64 (Suc m) \<le> ticks64 (m + Suc k)" by (rule ticks64_mono) simp
  then have lt: "ticks64 (Suc m) < shotEndTime64 ss (currentIndex st)"
    using Suc.prems(4) by linarith
  have t: "tick64 ss st = Inr ?st"
    using Suc.prems(1,3) lt by (simp add: tick64_unfold)
  have "run64 k ss ?st = Inr (?st\<lparr>elapsedTime := ticks64 (Suc m + k)\<rparr>)"
    using Suc.prems by (intro Suc.IH) simp_all
  then show ?case using Suc.prems(2) t by simp
qed

lemma default_ends64:
  "shotEndTime64 DEFAULT_SHOTS 0 = 7 / 2"
  "shotEndTime64 DEFAULT_SHOTS (Suc 0) = 11 / 2"
  "shotEndTime64 DEFAULT_SHOTS 2 = 10"
proof -
  have a: "fadd 0 (7 / 2) = 7 / 2"
    by (rule fadd_eval[where k = 51 and n = 7881299347898368]) simp_all
  have b: "fadd (7 / 2) 2 = 11 / 2"
    by (rule fadd_eval[where k = 50 and n = 6192449487634432]) simp_all
  have c: "fadd (11 / 2) (9 / 2) = 10"
    by (rule fadd_eval[where k = 49 and n = 5629499534213120]) simp_all
  show "shotEndTime64 DEFAULT_SHOTS 0 = 7 / 2"
    by (simp add: shotEndTime64_def DEFAULT_SHOTS_def a)
  show "shotEndTime64 DEFAULT_SHOTS (Suc 0) = 11 / 2"
    by (simp add: shotEndTime64_def DEFAULT_SHOTS_def a b)
  show "shotEndTime64 DEFAULT_SHOTS 2 = 10"
    by (simp add: shotEndTime64_def DEFAULT_SHOTS_def numeral_2_eq_2 a b c)
qed

text \<open>
  The first 101 additions of the tick interval, starting from 0, each with its
  exponent and significand.
\<close>

lemma default_ticks:
  shows "fadd (0) (3602879701896397 / 36028797018963968) = 3602879701896397 / 36028797018963968"
    and "fadd (3602879701896397 / 36028797018963968) (3602879701896397 / 36028797018963968) = 3602879701896397 / 18014398509481984"
    and "fadd (3602879701896397 / 18014398509481984) (3602879701896397 / 36028797018963968) = 1351079888211149 / 4503599627370496"
    and "fadd (1351079888211149 / 4503599627370496) (3602879701896397 / 36028797018963968) = 3602879701896397 / 9007199254740992"
    and "fadd (3602879701896397 / 9007199254740992) (3602879701896397 / 36028797018963968) = 1 / 2"
    and "fadd (1 / 2) (3602879701896397 / 36028797018963968) = 5404319552844595 / 9007199254740992"
    and "fadd (5404319552844595 / 9007199254740992) (3602879701896397 / 36028797018963968) = 3152519739159347 / 4503599627370496"
    and "fadd (3152519739159347 / 4503599627370496) (3602879701896397 / 36028797018963968) = 7205759403792793 / 9007199254740992"
    and "fadd (7205759403792793 / 9007199254740992) (3602879701896397 / 36028797018963968) = 2026619832316723 / 2251799813685248"
    and "fadd (2026619832316723 / 2251799813685248) (3602879701896397 / 36028797018963968) = 9007199254740991 / 9007199254740992"
    and "fadd (9007199254740991 / 9007199254740992) (3602879701896397 / 36028797018963968) = 4953959590107545 / 4503599627370496"
    and "fadd (4953959590107545 / 4503599627370496) (3602879701896397 / 36028797018963968) = 5404319552844595 / 4503599627370496"
    and "fadd (5404319552844595 / 4503599627370496) (3602879701896397 / 36028797018963968) = 5854679515581645 / 4503599627370496"
    and "fadd (5854679515581645 / 4503599627370496) (3602879701896397 / 36028797018963968) = 6305039478318695 / 4503599627370496"
    and "fadd (6305039478318695 / 4503599627370496) (3602879701896397 / 36028797018963968) = 6755399441055745 / 4503599627370496"
    and "fadd (6755399441055745 / 4503599627370496) (3602879701896397 / 36028797018963968) = 7205759403792795 / 4503599627370496"
    and "fadd (7205759403792795 / 4503599627370496) (3602879701896397 / 36028797018963968) = 7656119366529845 / 4503599627370496"
    and "fadd (7656119366529845 / 4503599627370496) (3602879701896397 / 36028797018963968) = 8106479329266895 / 4503599627370496"
    and "fadd (8106479329266895 / 4503599627370496) (3602879701896397 / 36028797018963968) = 8556839292003945 / 4503599627370496"
    and "fadd (8556839292003945 / 4503599627370496) (3602879701896397 / 36028797018963968) = 4503599627370497 / 2251799813685248"
    and "fadd (4503599627370497 / 2251799813685248) (3602879701896397 / 36028797018963968) = 2364389804369511 / 1125899906842624"
    and "fadd (2364389804369511 / 1125899906842624) (3602879701896397 / 36028797018963968) = 4953959590107547 / 2251799813685248"
    and "fadd (4953959590107547 / 2251799813685248) (3602879701896397 / 36028797018963968) = 647392446434509 / 281474976710656"
    and "fadd (647392446434509 / 281474976710656) (3602879701896397 / 36028797018963968) = 5404319552844597 / 2251799813685248"
    and "fadd (5404319552844597 / 2251799813685248) (3602879701896397 / 36028797018963968) = 2814749767106561 / 1125899906842624"
    and "fadd (2814749767106561 / 1125899906842624) (3602879701896397 / 36028797018963968) = 5854679515581647 / 2251799813685248"
    and "fadd (5854679515581647 / 2251799813685248) (3602879701896397 / 36028797018963968) = 1519964874237543 / 562949953421312"
    and "fadd (1519964874237543 / 562949953421312) (3602879701896397 / 36028797018963968) = 6305039478318697 / 2251799813685248"
    and "fadd (6305039478318697 / 2251799813685248) (3602879701896397 / 36028797018963968) = 3265109729843611 / 1125899906842624"
    and "fadd (3265109729843611 / 1125899906842624) (3602879701896397 / 36028797018963968) = 6755399441055747 / 2251799813685248"
    and "fadd (6755399441055747 / 2251799813685248) (3602879701896397 / 36028797018963968) = 436286213901517 / 140737488355328"
    and "fadd (436286213901517 / 140737488355328) (3602879701896397 / 36028797018963968) = 7205759403792797 / 2251799813685248"
    and "fadd (7205759403792797 / 2251799813685248) (3602879701896397 / 36028797018963968) = 3715469692580661 / 1125899906842624"
    and "fadd (3715469692580661 / 1125899906842624) (3602879701896397 / 36028797018963968) = 7656119366529847 / 2251799813685248"
    and "fadd (7656119366529847 / 2251799813685248) (3602879701896397 / 36028797018963968) = 1970324836974593 / 562949953421312"
    and "fadd (1970324836974593 / 562949953421312) (3602879701896397 / 36028797018963968) = 8106479329266897 / 2251799813685248"
    and "fadd (8106479329266897 / 2251799813685248) (3602879701896397 / 36028797018963968) = 4165829655317711 / 1125899906842624"
    and "fadd (4165829655317711 / 1125899906842624) (3602879701896397 / 36028797018963968) = 8556839292003947 / 2251799813685248"
    and "fadd (8556839292003947 / 2251799813685248) (3602879701896397 / 36028797018963968) = 1097752409171559 / 281474976710656"
    and "fadd (1097752409171559 / 281474976710656) (3602879701896397 / 36028797018963968) = 2251799813685249 / 562949953421312"
    and "fadd (2251799813685249 / 562949953421312) (3602879701896397 / 36028797018963968) = 577023702256845 / 140737488355328"
    and "fadd (577023702256845 / 140737488355328) (3602879701896397 / 36028797018963968) = 2364389804369511 / 562949953421312"
    and "fadd (2364389804369511 / 562949953421312) (3602879701896397 / 36028797018963968) = 1210342399855821 / 281474976710656"
    and "fadd (1210342399855821 / 281474976710656) (3602879701896397 / 36028797018963968) = 2476979795053773 / 562949953421312"
    and "fadd (2476979795053773 / 562949953421312) (3602879701896397 / 36028797018963968) = 9 / 2"
    and "fadd (9 / 2) (3602879701896397 / 36028797018963968) = 2589569785738035 / 562949953421312"
    and "fadd (2589569785738035 / 562949953421312) (3602879701896397 / 36028797018963968) = 1322932390540083 / 281474976710656"
    and "fadd (1322932390540083 / 281474976710656) (3602879701896397 / 36028797018963968) = 2702159776422297 / 562949953421312"
    and "fadd (2702159776422297 / 562949953421312) (3602879701896397 / 36028797018963968) = 689613692941107 / 140737488355328"
    and "fadd (689613692941107 / 140737488355328) (3602879701896397 / 36028797018963968) = 2814749767106559 / 562949953421312"
    and "fadd (2814749767106559 / 562949953421312) (3602879701896397 / 36028797018963968) = 1435522381224345 / 281474976710656"
    and "fadd (1435522381224345 / 281474976710656) (3602879701896397 / 36028797018963968) = 2927339757790821 / 562949953421312"
    and "fadd (2927339757790821 / 562949953421312) (3602879701896397 / 36028797018963968) = 372954344141619 / 70368744177664"
    and "fadd (372954344141619 / 70368744177664) (3602879701896397 / 36028797018963968) = 3039929748475083 / 562949953421312"
    and "fadd (3039929748475083 / 562949953421312) (3602879701896397 / 36028797018963968) = 1548112371908607 / 281474976710656"
    and "fadd (1548112371908607 / 281474976710656) (3602879701896397 / 36028797018963968) = 3152519739159345 / 562949953421312"
    and "fadd (3152519739159345 / 562949953421312) (3602879701896397 / 36028797018963968) = 802203683625369 / 140737488355328"
    and "fadd (802203683625369 / 140737488355328) (3602879701896397 / 36028797018963968) = 3265109729843607 / 562949953421312"
    and "fadd (3265109729843607 / 562949953421312) (3602879701896397 / 36028797018963968) = 1660702362592869 / 281474976710656"
    and "fadd (1660702362592869 / 281474976710656) (3602879701896397 / 36028797018963968) = 3377699720527869 / 562949953421312"
    and "fadd (3377699720527869 / 562949953421312) (3602879701896397 / 36028797018963968) = 214624669741875 / 35184372088832"
    and "fadd (214624669741875 / 35184372088832) (3602879701896397 / 36028797018963968) = 3490289711212131 / 562949953421312"
    and "fadd (3490289711212131 / 562949953421312) (3602879701896397 / 36028797018963968) = 1773292353277131 / 281474976710656"
    and "fadd (1773292353277131 / 281474976710656) (3602879701896397 / 36028797018963968) = 3602879701896393 / 562949953421312"
    and "fadd (3602879701896393 / 562949953421312) (3602879701896397 / 36028797018963968) = 914793674309631 / 140737488355328"
    and "fadd (914793674309631 / 140737488355328) (3602879701896397 / 36028797018963968) = 3715469692580655 / 562949953421312"
    and "fadd (3715469692580655 / 562949953421312) (3602879701896397 / 36028797018963968) = 1885882343961393 / 281474976710656"
    and "fadd (1885882343961393 / 281474976710656) (3602879701896397 / 36028797018963968) = 3828059683264917 / 562949953421312"
    and "fadd (3828059683264917 / 562949953421312) (3602879701896397 / 36028797018963968) = 485544334825881 / 70368744177664"
    and "fadd (485544334825881 / 70368744177664) (3602879701896397 / 36028797018963968) = 3940649673949179 / 562949953421312"
    and "fadd (3940649673949179 / 562949953421312) (3602879701896397 / 36028797018963968) = 1998472334645655 / 281474976710656"
    and "fadd (1998472334645655 / 281474976710656) (3602879701896397 / 36028797018963968) = 4053239664633441 / 562949953421312"
    and "fadd (4053239664633441 / 562949953421312) (3602879701896397 / 36028797018963968) = 1027383664993893 / 140737488355328"
    and "fadd (1027383664993893 / 140737488355328) (3602879701896397 / 36028797018963968) = 4165829655317703 / 562949953421312"
    and "fadd (4165829655317703 / 562949953421312) (3602879701896397 / 36028797018963968) = 2111062325329917 / 281474976710656"
    and "fadd (2111062325329917 / 281474976710656) (3602879701896397 / 36028797018963968) = 4278419646001965 / 562949953421312"
    and "fadd (4278419646001965 / 562949953421312) (3602879701896397 / 36028797018963968) = 135459832542003 / 17592186044416"
    and "fadd (135459832542003 / 17592186044416) (3602879701896397 / 36028797018963968) = 4391009636686227 / 562949953421312"
    and "fadd (4391009636686227 / 562949953421312) (3602879701896397 / 36028797018963968) = 2223652316014179 / 281474976710656"
    and "fadd (2223652316014179 / 281474976710656) (3602879701896397 / 36028797018963968) = 4503599627370489 / 562949953421312"
    and "fadd (4503599627370489 / 562949953421312) (3602879701896397 / 36028797018963968) = 1139973655678155 / 140737488355328"
    and "fadd (1139973655678155 / 140737488355328) (3602879701896397 / 36028797018963968) = 4616189618054751 / 562949953421312"
    and "fadd (4616189618054751 / 562949953421312) (3602879701896397 / 36028797018963968) = 2336242306698441 / 281474976710656"
    and "fadd (2336242306698441 / 281474976710656) (3602879701896397 / 36028797018963968) = 4728779608739013 / 562949953421312"
    and "fadd (4728779608739013 / 562949953421312) (3602879701896397 / 36028797018963968) = 598134325510143 / 70368744177664"
    and "fadd (598134325510143 / 70368744177664) (3602879701896397 / 36028797018963968) = 4841369599423275 / 562949953421312"
    and "fadd (4841369599423275 / 562949953421312) (3602879701896397 / 36028797018963968) = 2448832297382703 / 281474976710656"
    and "fadd (2448832297382703 / 281474976710656) (3602879701896397 / 36028797018963968) = 4953959590107537 / 562949953421312"
    and "fadd (4953959590107537 / 562949953421312) (3602879701896397 / 36028797018963968) = 1252563646362417 / 140737488355328"
    and "fadd (1252563646362417 / 140737488355328) (3602879701896397 / 36028797018963968) = 5066549580791799 / 562949953421312"
    and "fadd (5066549580791799 / 562949953421312) (3602879701896397 / 36028797018963968) = 2561422288066965 / 281474976710656"
    and "fadd (2561422288066965 / 281474976710656) (3602879701896397 / 36028797018963968) = 5179139571476061 / 562949953421312"
    and "fadd (5179139571476061 / 562949953421312) (3602879701896397 / 36028797018963968) = 327214660426137 / 35184372088832"
    and "fadd (327214660426137 / 35184372088832) (3602879701896397 / 36028797018963968) = 5291729562160323 / 562949953421312"
    and "fadd (5291729562160323 / 562949953421312) (3602879701896397 / 36028797018963968) = 2674012278751227 / 281474976710656"
    and "fadd (2674012278751227 / 281474976710656) (3602879701896397 / 36028797018963968) = 5404319552844585 / 562949953421312"
    and "fadd (5404319552844585 / 562949953421312) (3602879701896397 / 36028797018963968) = 1365153637046679 / 140737488355328"
    and "fadd (1365153637046679 / 140737488355328) (3602879701896397 / 36028797018963968) = 5516909543528847 / 562949953421312"
    and "fadd (5516909543528847 / 562949953421312) (3602879701896397 / 36028797018963968) = 2786602269435489 / 281474976710656"
    and "fadd (2786602269435489 / 281474976710656) (3602879701896397 / 36028797018963968) = 5629499534213109 / 562949953421312"
    and "fadd (5629499534213109 / 562949953421312) (3602879701896397 / 36028797018963968) = 710724316194405 / 70368744177664"
proof -
  show "fadd (0) (3602879701896397 / 36028797018963968) = 3602879701896397 / 36028797018963968"
    by (rule fadd_eval[where k = 56 and n = 7205759403792794]) simp_all
  show "fadd (3602879701896397 / 36028797018963968) (3602879701896397 / 36028797018963968) = 3602879701896397 / 18014398509481984"
    by (rule fadd_eval[where k = 55 and n = 7205759403792794]) simp_all
  show "fadd (3602879701896397 / 18014398509481984) (3602879701896397 / 36028797018963968) = 1351079888211149 / 4503599627370496"
    by (rule fadd_tie[where k = 54 and f = 5404319552844595]) simp_all
  show "fadd (1351079888211149 / 4503599627370496) (3602879701896397 / 36028797018963968) = 3602879701896397 / 9007199254740992"
    by (rule fadd_tie[where k = 54 and f = 7205759403792794]) simp_all
  show "fadd (3602879701896397 / 9007199254740992) (3602879701896397 / 36028797018963968) = 1 / 2"
    by (rule fadd_eval[where k = 53 and n = 4503599627370496]) simp_all
  show "fadd (1 / 2) (3602879701896397 / 36028797018963968) = 5404319552844595 / 9007199254740992"
    by (rule fadd_eval[where k = 53 and n = 5404319552844595]) simp_all
  show "fadd (5404319552844595 / 9007199254740992) (3602879701896397 / 36028797018963968) = 3152519739159347 / 4503599627370496"
    by (rule fadd_eval[where k = 53 and n = 6305039478318694]) simp_all
  show "fadd (3152519739159347 / 4503599627370496) (3602879701896397 / 36028797018963968) = 7205759403792793 / 9007199254740992"
    by (rule fadd_eval[where k = 53 and n = 7205759403792793]) simp_all
  show "fadd (7205759403792793 / 9007199254740992) (3602879701896397 / 36028797018963968) = 2026619832316723 / 2251799813685248"
    by (rule fadd_eval[where k = 53 and n = 8106479329266892]) simp_all
  show "fadd (2026619832316723 / 2251799813685248) (3602879701896397 / 36028797018963968) = 9007199254740991 / 9007199254740992"
    by (rule fadd_eval[where k = 53 and n = 9007199254740991]) simp_all
  show "fadd (9007199254740991 / 9007199254740992) (3602879701896397 / 36028797018963968) = 4953959590107545 / 4503599627370496"
    by (rule fadd_eval[where k = 52 and n = 4953959590107545]) simp_all
  show "fadd (4953959590107545 / 4503599627370496) (3602879701896397 / 36028797018963968) = 5404319552844595 / 4503599627370496"
    by (rule fadd_eval[where k = 52 and n = 5404319552844595]) simp_all
  show "fadd (5404319552844595 / 4503599627370496) (3602879701896397 / 36028797018963968) = 5854679515581645 / 4503599627370496"
    by (rule fadd_eval[where k = 52 and n = 5854679515581645]) simp_all
  show "fadd (5854679515581645 / 4503599627370496) (3602879701896397 / 36028797018963968) = 6305039478318695 / 4503599627370496"
    by (rule fadd_eval[where k = 52 and n = 6305039478318695]) simp_all
  show "fadd (6305039478318695 / 4503599627370496) (3602879701896397 / 36028797018963968) = 6755399441055745 / 4503599627370496"
    by (rule fadd_eval[where k = 52 and n = 6755399441055745]) simp_all
  show "fadd (6755399441055745 / 4503599627370496) (3602879701896397 / 36028797018963968) = 7205759403792795 / 4503599627370496"
    by (rule fadd_eval[where k = 52 and n = 7205759403792795]) simp_all
  show "fadd (7205759403792795 / 4503599627370496) (3602879701896397 / 36028797018963968) = 7656119366529845 / 4503599627370496"
    by (rule fadd_eval[where k = 52 and n = 7656119366529845]) simp_all
  show "fadd (7656119366529845 / 4503599627370496) (3602879701896397 / 36028797018963968) = 8106479329266895 / 4503599627370496"
    by (rule fadd_eval[where k = 52 and n = 8106479329266895]) simp_all
  show "fadd (8106479329266895 / 4503599627370496) (3602879701896397 / 36028797018963968) = 8556839292003945 / 4503599627370496"
    by (rule fadd_eval[where k = 52 and n = 8556839292003945]) simp_all
  show "fadd (8556839292003945 / 4503599627370496) (3602879701896397 / 36028797018963968) = 4503599627370497 / 2251799813685248"
    by (rule fadd_eval[where k = 51 and n = 4503599627370497]) simp_all
  show "fadd (4503599627370497 / 2251799813685248) (3602879701896397 / 36028797018963968) = 2364389804369511 / 1125899906842624"
    by (rule fadd_eval[where k = 51 and n = 4728779608739022]) simp_all
  show "fadd (2364389804369511 / 1125899906842624) (3602879701896397 / 36028797018963968) = 4953959590107547 / 2251799813685248"
    by (rule fadd_eval[where k = 51 and n = 4953959590107547]) simp_all
  show "fadd (4953959590107547 / 2251799813685248) (3602879701896397 / 36028797018963968) = 647392446434509 / 281474976710656"
    by (rule fadd_eval[where k = 51 and n = 5179139571476072]) simp_all
  show "fadd (647392446434509 / 281474976710656) (3602879701896397 / 36028797018963968) = 5404319552844597 / 2251799813685248"
    by (rule fadd_eval[where k = 51 and n = 5404319552844597]) simp_all
  show "fadd (5404319552844597 / 2251799813685248) (3602879701896397 / 36028797018963968) = 2814749767106561 / 1125899906842624"
    by (rule fadd_eval[where k = 51 and n = 5629499534213122]) simp_all
  show "fadd (2814749767106561 / 1125899906842624) (3602879701896397 / 36028797018963968) = 5854679515581647 / 2251799813685248"
    by (rule fadd_eval[where k = 51 and n = 5854679515581647]) simp_all
  show "fadd (5854679515581647 / 2251799813685248) (3602879701896397 / 36028797018963968) = 1519964874237543 / 562949953421312"
    by (rule fadd_eval[where k = 51 and n = 6079859496950172]) simp_all
  show "fadd (1519964874237543 / 562949953421312) (3602879701896397 / 36028797018963968) = 6305039478318697 / 2251799813685248"
    by (rule fadd_eval[where k = 51 and n = 6305039478318697]) simp_all
  show "fadd (6305039478318697 / 2251799813685248) (3602879701896397 / 36028797018963968) = 3265109729843611 / 1125899906842624"
    by (rule fadd_eval[where k = 51 and n = 6530219459687222]) simp_all
  show "fadd (3265109729843611 / 1125899906842624) (3602879701896397 / 36028797018963968) = 6755399441055747 / 2251799813685248"
    by (rule fadd_eval[where k = 51 and n = 6755399441055747]) simp_all
  show "fadd (6755399441055747 / 2251799813685248) (3602879701896397 / 36028797018963968) = 436286213901517 / 140737488355328"
    by (rule fadd_eval[where k = 51 and n = 6980579422424272]) simp_all
  show "fadd (436286213901517 / 140737488355328) (3602879701896397 / 36028797018963968) = 7205759403792797 / 2251799813685248"
    by (rule fadd_eval[where k = 51 and n = 7205759403792797]) simp_all
  show "fadd (7205759403792797 / 2251799813685248) (3602879701896397 / 36028797018963968) = 3715469692580661 / 1125899906842624"
    by (rule fadd_eval[where k = 51 and n = 7430939385161322]) simp_all
  show "fadd (3715469692580661 / 1125899906842624) (3602879701896397 / 36028797018963968) = 7656119366529847 / 2251799813685248"
    by (rule fadd_eval[where k = 51 and n = 7656119366529847]) simp_all
  show "fadd (7656119366529847 / 2251799813685248) (3602879701896397 / 36028797018963968) = 1970324836974593 / 562949953421312"
    by (rule fadd_eval[where k = 51 and n = 7881299347898372]) simp_all
  show "fadd (1970324836974593 / 562949953421312) (3602879701896397 / 36028797018963968) = 8106479329266897 / 2251799813685248"
    by (rule fadd_eval[where k = 51 and n = 8106479329266897]) simp_all
  show "fadd (8106479329266897 / 2251799813685248) (3602879701896397 / 36028797018963968) = 4165829655317711 / 1125899906842624"
    by (rule fadd_eval[where k = 51 and n = 8331659310635422]) simp_all
  show "fadd (4165829655317711 / 1125899906842624) (3602879701896397 / 36028797018963968) = 8556839292003947 / 2251799813685248"
    by (rule fadd_eval[where k = 51 and n = 8556839292003947]) simp_all
  show "fadd (8556839292003947 / 2251799813685248) (3602879701896397 / 36028797018963968) = 1097752409171559 / 281474976710656"
    by (rule fadd_eval[where k = 51 and n = 8782019273372472]) simp_all
  show "fadd (1097752409171559 / 281474976710656) (3602879701896397 / 36028797018963968) = 2251799813685249 / 562949953421312"
    by (rule fadd_eval[where k = 50 and n = 4503599627370498]) simp_all
  show "fadd (2251799813685249 / 562949953421312) (3602879701896397 / 36028797018963968) = 577023702256845 / 140737488355328"
    by (rule fadd_eval[where k = 50 and n = 4616189618054760]) simp_all
  show "fadd (577023702256845 / 140737488355328) (3602879701896397 / 36028797018963968) = 2364389804369511 / 562949953421312"
    by (rule fadd_eval[where k = 50 and n = 4728779608739022]) simp_all
  show "fadd (2364389804369511 / 562949953421312) (3602879701896397 / 36028797018963968) = 1210342399855821 / 281474976710656"
    by (rule fadd_eval[where k = 50 and n = 4841369599423284]) simp_all
  show "fadd (1210342399855821 / 281474976710656) (3602879701896397 / 36028797018963968) = 2476979795053773 / 562949953421312"
    by (rule fadd_eval[where k = 50 and n = 4953959590107546]) simp_all
  show "fadd (2476979795053773 / 562949953421312) (3602879701896397 / 36028797018963968) = 9 / 2"
    by (rule fadd_eval[where k = 50 and n = 5066549580791808]) simp_all
  show "fadd (9 / 2) (3602879701896397 / 36028797018963968) = 2589569785738035 / 562949953421312"
    by (rule fadd_eval[where k = 50 and n = 5179139571476070]) simp_all
  show "fadd (2589569785738035 / 562949953421312) (3602879701896397 / 36028797018963968) = 1322932390540083 / 281474976710656"
    by (rule fadd_eval[where k = 50 and n = 5291729562160332]) simp_all
  show "fadd (1322932390540083 / 281474976710656) (3602879701896397 / 36028797018963968) = 2702159776422297 / 562949953421312"
    by (rule fadd_eval[where k = 50 and n = 5404319552844594]) simp_all
  show "fadd (2702159776422297 / 562949953421312) (3602879701896397 / 36028797018963968) = 689613692941107 / 140737488355328"
    by (rule fadd_eval[where k = 50 and n = 5516909543528856]) simp_all
  show "fadd (689613692941107 / 140737488355328) (3602879701896397 / 36028797018963968) = 2814749767106559 / 562949953421312"
    by (rule fadd_eval[where k = 50 and n = 5629499534213118]) simp_all
  show "fadd (2814749767106559 / 562949953421312) (3602879701896397 / 36028797018963968) = 1435522381224345 / 281474976710656"
    by (rule fadd_eval[where k = 50 and n = 5742089524897380]) simp_all
  show "fadd (1435522381224345 / 281474976710656) (3602879701896397 / 36028797018963968) = 2927339757790821 / 562949953421312"
    by (rule fadd_eval[where k = 50 and n = 5854679515581642]) simp_all
  show "fadd (2927339757790821 / 562949953421312) (3602879701896397 / 36028797018963968) = 372954344141619 / 70368744177664"
    by (rule fadd_eval[where k = 50 and n = 5967269506265904]) simp_all
  show "fadd (372954344141619 / 70368744177664) (3602879701896397 / 36028797018963968) = 3039929748475083 / 562949953421312"
    by (rule fadd_eval[where k = 50 and n = 6079859496950166]) simp_all
  show "fadd (3039929748475083 / 562949953421312) (3602879701896397 / 36028797018963968) = 1548112371908607 / 281474976710656"
    by (rule fadd_eval[where k = 50 and n = 6192449487634428]) simp_all
  show "fadd (1548112371908607 / 281474976710656) (3602879701896397 / 36028797018963968) = 3152519739159345 / 562949953421312"
    by (rule fadd_eval[where k = 50 and n = 6305039478318690]) simp_all
  show "fadd (3152519739159345 / 562949953421312) (3602879701896397 / 36028797018963968) = 802203683625369 / 140737488355328"
    by (rule fadd_eval[where k = 50 and n = 6417629469002952]) simp_all
  show "fadd (802203683625369 / 140737488355328) (3602879701896397 / 36028797018963968) = 3265109729843607 / 562949953421312"
    by (rule fadd_eval[where k = 50 and n = 6530219459687214]) simp_all
  show "fadd (3265109729843607 / 562949953421312) (3602879701896397 / 36028797018963968) = 1660702362592869 / 281474976710656"
    by (rule fadd_eval[where k = 50 and n = 6642809450371476]) simp_all
  show "fadd (1660702362592869 / 281474976710656) (3602879701896397 / 36028797018963968) = 3377699720527869 / 562949953421312"
    by (rule fadd_eval[where k = 50 and n = 6755399441055738]) simp_all
  show "fadd (3377699720527869 / 562949953421312) (3602879701896397 / 36028797018963968) = 214624669741875 / 35184372088832"
    by (rule fadd_eval[where k = 50 and n = 6867989431740000]) simp_all
  show "fadd (214624669741875 / 35184372088832) (3602879701896397 / 36028797018963968) = 3490289711212131 / 562949953421312"
    by (rule fadd_eval[where k = 50 and n = 6980579422424262]) simp_all
  show "fadd (3490289711212131 / 562949953421312) (3602879701896397 / 36028797018963968) = 1773292353277131 / 281474976710656"
    by (rule fadd_eval[where k = 50 and n = 7093169413108524]) simp_all
  show "fadd (1773292353277131 / 281474976710656) (3602879701896397 / 36028797018963968) = 3602879701896393 / 562949953421312"
    by (rule fadd_eval[where k = 50 and n = 7205759403792786]) simp_all
  show "fadd (3602879701896393 / 562949953421312) (3602879701896397 / 36028797018963968) = 914793674309631 / 140737488355328"
    by (rule fadd_eval[where k = 50 and n = 7318349394477048]) simp_all
  show "fadd (914793674309631 / 140737488355328) (3602879701896397 / 36028797018963968) = 3715469692580655 / 562949953421312"
    by (rule fadd_eval[where k = 50 and n = 7430939385161310]) simp_all
  show "fadd (3715469692580655 / 562949953421312) (3602879701896397 / 36028797018963968) = 1885882343961393 / 281474976710656"
    by (rule fadd_eval[where k = 50 and n = 7543529375845572]) simp_all
  show "fadd (1885882343961393 / 281474976710656) (3602879701896397 / 36028797018963968) = 3828059683264917 / 562949953421312"
    by (rule fadd_eval[where k = 50 and n = 7656119366529834]) simp_all
  show "fadd (3828059683264917 / 562949953421312) (3602879701896397 / 36028797018963968) = 485544334825881 / 70368744177664"
    by (rule fadd_eval[where k = 50 and n = 7768709357214096]) simp_all
  show "fadd (485544334825881 / 70368744177664) (3602879701896397 / 36028797018963968) = 3940649673949179 / 562949953421312"
    by (rule fadd_eval[where k = 50 and n = 7881299347898358]) simp_all
  show "fadd (3940649673949179 / 562949953421312) (3602879701896397 / 36028797018963968) = 1998472334645655 / 281474976710656"
    by (rule fadd_eval[where k = 50 and n = 7993889338582620]) simp_all
  show "fadd (1998472334645655 / 281474976710656) (3602879701896397 / 36028797018963968) = 4053239664633441 / 562949953421312"
    by (rule fadd_eval[where k = 50 and n = 8106479329266882]) simp_all
  show "fadd (4053239664633441 / 562949953421312) (3602879701896397 / 36028797018963968) = 1027383664993893 / 140737488355328"
    by (rule fadd_eval[where k = 50 and n = 8219069319951144]) simp_all
  show "fadd (1027383664993893 / 140737488355328) (3602879701896397 / 36028797018963968) = 4165829655317703 / 562949953421312"
    by (rule fadd_eval[where k = 50 and n = 8331659310635406]) simp_all
  show "fadd (4165829655317703 / 562949953421312) (3602879701896397 / 36028797018963968) = 2111062325329917 / 281474976710656"
    by (rule fadd_eval[where k = 50 and n = 8444249301319668]) simp_all
  show "fadd (2111062325329917 / 281474976710656) (3602879701896397 / 36028797018963968) = 4278419646001965 / 562949953421312"
    by (rule fadd_eval[where k = 50 and n = 8556839292003930]) simp_all
  show "fadd (4278419646001965 / 562949953421312) (3602879701896397 / 36028797018963968) = 135459832542003 / 17592186044416"
    by (rule fadd_eval[where k = 50 and n = 8669429282688192]) simp_all
  show "fadd (135459832542003 / 17592186044416) (3602879701896397 / 36028797018963968) = 4391009636686227 / 562949953421312"
    by (rule fadd_eval[where k = 50 and n = 8782019273372454]) simp_all
  show "fadd (4391009636686227 / 562949953421312) (3602879701896397 / 36028797018963968) = 2223652316014179 / 281474976710656"
    by (rule fadd_eval[where k = 50 and n = 8894609264056716]) simp_all
  show "fadd (2223652316014179 / 281474976710656) (3602879701896397 / 36028797018963968) = 4503599627370489 / 562949953421312"
    by (rule fadd_eval[where k = 50 and n = 9007199254740978]) simp_all
  show "fadd (4503599627370489 / 562949953421312) (3602879701896397 / 36028797018963968) = 1139973655678155 / 140737488355328"
    by (rule fadd_eval[where k = 49 and n = 4559894622712620]) simp_all
  show "fadd (1139973655678155 / 140737488355328) (3602879701896397 / 36028797018963968) = 4616189618054751 / 562949953421312"
    by (rule fadd_eval[where k = 49 and n = 4616189618054751]) simp_all
  show "fadd (4616189618054751 / 562949953421312) (3602879701896397 / 36028797018963968) = 2336242306698441 / 281474976710656"
    by (rule fadd_eval[where k = 49 and n = 4672484613396882]) simp_all
  show "fadd (2336242306698441 / 281474976710656) (3602879701896397 / 36028797018963968) = 4728779608739013 / 562949953421312"
    by (rule fadd_eval[where k = 49 and n = 4728779608739013]) simp_all
  show "fadd (4728779608739013 / 562949953421312) (3602879701896397 / 36028797018963968) = 598134325510143 / 70368744177664"
    by (rule fadd_eval[where k = 49 and n = 4785074604081144]) simp_all
  show "fadd (598134325510143 / 70368744177664) (3602879701896397 / 36028797018963968) = 4841369599423275 / 562949953421312"
    by (rule fadd_eval[where k = 49 and n = 4841369599423275]) simp_all
  show "fadd (4841369599423275 / 562949953421312) (3602879701896397 / 36028797018963968) = 2448832297382703 / 281474976710656"
    by (rule fadd_eval[where k = 49 and n = 4897664594765406]) simp_all
  show "fadd (2448832297382703 / 281474976710656) (3602879701896397 / 36028797018963968) = 4953959590107537 / 562949953421312"
    by (rule fadd_eval[where k = 49 and n = 4953959590107537]) simp_all
  show "fadd (4953959590107537 / 562949953421312) (3602879701896397 / 36028797018963968) = 1252563646362417 / 140737488355328"
    by (rule fadd_eval[where k = 49 and n = 5010254585449668]) simp_all
  show "fadd (1252563646362417 / 140737488355328) (3602879701896397 / 36028797018963968) = 5066549580791799 / 562949953421312"
    by (rule fadd_eval[where k = 49 and n = 5066549580791799]) simp_all
  show "fadd (5066549580791799 / 562949953421312) (3602879701896397 / 36028797018963968) = 2561422288066965 / 281474976710656"
    by (rule fadd_eval[where k = 49 and n = 5122844576133930]) simp_all
  show "fadd (2561422288066965 / 281474976710656) (3602879701896397 / 36028797018963968) = 5179139571476061 / 562949953421312"
    by (rule fadd_eval[where k = 49 and n = 5179139571476061]) simp_all
  show "fadd (5179139571476061 / 562949953421312) (3602879701896397 / 36028797018963968) = 327214660426137 / 35184372088832"
    by (rule fadd_eval[where k = 49 and n = 5235434566818192]) simp_all
  show "fadd (327214660426137 / 35184372088832) (3602879701896397 / 36028797018963968) = 5291729562160323 / 562949953421312"
    by (rule fadd_eval[where k = 49 and n = 5291729562160323]) simp_all
  show "fadd (5291729562160323 / 562949953421312) (3602879701896397 / 36028797018963968) = 2674012278751227 / 281474976710656"
    by (rule fadd_eval[where k = 49 and n = 5348024557502454]) simp_all
  show "fadd (2674012278751227 / 281474976710656) (3602879701896397 / 36028797018963968) = 5404319552844585 / 562949953421312"
    by (rule fadd_eval[where k = 49 and n = 5404319552844585]) simp_all
  show "fadd (5404319552844585 / 562949953421312) (3602879701896397 / 36028797018963968) = 1365153637046679 / 140737488355328"
    by (rule fadd_eval[where k = 49 and n = 5460614548186716]) simp_all
  show "fadd (1365153637046679 / 140737488355328) (3602879701896397 / 36028797018963968) = 5516909543528847 / 562949953421312"
    by (rule fadd_eval[where k = 49 and n = 5516909543528847]) simp_all
  show "fadd (5516909543528847 / 562949953421312) (3602879701896397 / 36028797018963968) = 2786602269435489 / 281474976710656"
    by (rule fadd_eval[where k = 49 and n = 5573204538870978]) simp_all
  show "fadd (2786602269435489 / 281474976710656) (3602879701896397 / 36028797018963968) = 5629499534213109 / 562949953421312"
    by (rule fadd_eval[where k = 49 and n = 5629499534213109]) simp_all
  show "fadd (5629499534213109 / 562949953421312) (3602879701896397 / 36028797018963968) = 710724316194405 / 70368744177664"
    by (rule fadd_eval[where k = 49 and n = 5685794529555240]) simp_all
qed

lemma ticks64_values:
  "ticks64 34 = 7656119366529847 / 2251799813685248"
  "ticks64 35 = 1970324836974593 / 562949953421312"
  "ticks64 55 = 1548112371908607 / 281474976710656"
  "ticks64 56 = 3152519739159345 / 562949953421312"
  "ticks64 100 = 5629499534213109 / 562949953421312"
  "ticks64 101 = 710724316194405 / 70368744177664"
  by (simp_all add: eval_nat_numeral tick_seconds64_val default_ticks)

lemma ticks64_next:
  "fadd (ticks64 34) tick_seconds64 = ticks64 35"
  "fadd (ticks64 55) tick_seconds64 = ticks64 56"
  "fadd (ticks64 100) tick_seconds64 = ticks64 101"
proof -
  have "ticks64 35 = ticks64 (Suc 34)" "ticks64 56 = ticks64 (Suc 55)"
    "ticks64 101 = ticks64 (Suc 100)" by simp_all
  then show "fadd (ticks64 34) tick_seconds64 = ticks64 35"
    "fadd (ticks64 55) tick_seconds64 = ticks64 56"
    "fadd (ticks64 100) tick_seconds64 = ticks64 101"
    by (simp_all only: ticks64.simps)
qed

lemma run64_first:
  assumes "n \<le> 34"
  shows "run64 n DEFAULT_SHOTS initialPlayer
         = Inr \<lparr>currentIndex = 0, isPlaying = True, elapsedTime = ticks64 n\<rparr>"
proof -
  have "ticks64 n \<le> ticks64 34" using assms by (rule ticks64_mono)
  then have "ticks64 n < 7 / 2" by (simp add: ticks64_values)
  then show ?thesis
    using run64_steady[of initialPlayer DEFAULT_SHOTS 0 n]
    by (simp add: initialPlayer_def default_length default_ends64)
qed

lemma run64_35:
  "run64 35 DEFAULT_SHOTS initialPlayer
   = Inr \<lparr>currentIndex = 1, isPlaying = True, elapsedTime = ticks64 35\<rparr>"
proof -
  have "7 / 2 \<le> ticks64 35" by (simp add: ticks64_values)
  then show ?thesis
    using run64_add[of 34 1 DEFAULT_SHOTS initialPlayer]
    by (simp add: run64_first tick64_unfold default_length default_ends64 ticks64_next)
qed

lemma run64_second:
  assumes "k \<le> 20"
  shows "run64 (35 + k) DEFAULT_SHOTS initialPlayer
         = Inr \<lparr>currentIndex = 1, isPlaying = True, elapsedTime = ticks64 (35 + k)\<rparr>"
proof -
  have "ticks64 (35 + k) \<le> ticks64 55" using assms by (intro ticks64_mono) simp
  then have "ticks64 (35 + k) < 11 / 2" by (simp add: ticks64_values)
  then show ?thesis
    using run64_add[of 35 k DEFAULT_SHOTS initialPlayer]
      run64_steady[of "\<lparr>currentIndex = 1, isPlaying = True, elapsedTime = ticks64 35\<rparr>"
        DEFAULT_SHOTS 35 k]
    by (simp add: run64_35 default_length default_ends64)
qed

lemma run64_56:
  "run64 56 DEFAULT_SHOTS initialPlayer
   = Inr \<lparr>currentIndex = 2, isPlaying = True, elapsedTime = ticks64 56\<rparr>"
proof -
  have "11 / 2 \<le> ticks64 56" by (simp add: ticks64_values)
  then show ?thesis
    using run64_add[of 55 1 DEFAULT_SHOTS initialPlayer] run64_second[of 20]
    by (simp add: tick64_unfold default_length default_ends64 ticks64_next)
qed

lemma run64_third:
  assumes "k \<le> 44"
  shows "run64 (56 + k) DEFAULT_SHOTS initialPlayer
         = Inr \<lparr>currentIndex = 2, isPlaying = True, elapsedTime = ticks64 (56 + k)\<rparr>"
proof -
  have "ticks64 (56 + k) \<le> ticks64 100" using assms by (intro ticks64_mono) simp
  then have "ticks64 (56 + k) < 10" by (simp add: ticks64_values)
  then show ?thesis
    using run64_add[of 56 k DEFAULT_SHOTS initialPlayer]
      run64_steady[of "\<lparr>currentIndex = 2, isPlaying = True, elapsedTime = ticks64 56\<rparr>"
        DEFAULT_SHOTS 56 k]
    by (simp add: run64_56 default_length default_ends64)
qed

lemma run64_end:
  "run64 (101 + k) DEFAULT_SHOTS initialPlayer
   = Inr \<lparr>currentIndex = 2, isPlaying = False, elapsedTime = ticks64 100\<rparr>"
proof -
  have "10 \<le> ticks64 101" by (simp add: ticks64_values)
  then have "run64 101 DEFAULT_SHOTS initialPlayer
             = Inr \<lparr>currentIndex = 2, isPlaying = False, elapsedTime = ticks64 100\<rparr>"
    using run64_add[of 100 1 DEFAULT_SHOTS initialPlayer] run64_third[of 44]
    by (simp add: tick64_unfold default_length default_ends64 ticks64_next)
  then show ?thesis
    using run64_add[of 101 k DEFAULT_SHOTS initialPlayer] by (simp add: run64_stopped)
qed

lemma default_run64:
  "run64 n DEFAULT_SHOTS initialPlayer =
     Inr \<lparr>currentIndex = (if n < 35 then 0 else if n < 56 then 1 else 2),
          isPlaying = (n < 101),
          elapsedTime = ticks64 (min n 100)\<rparr>"
proof -
  consider "n \<le> 34" | k where "n = 35 + k" "k \<le> 20" | k where "n = 56 + k" "k \<le> 44"
    | k where "n = 101 + k"
  proof -
    assume a: "n \<le> 34 \<Longrightarrow> thesis" "\<And>k. n = 35 + k \<Longrightarrow> k \<le> 20 \<Longrightarrow> thesis"
      "\<And>k. n = 56 + k \<Longrightarrow> k \<le> 44 \<Longrightarrow> thesis" "\<And>k. n = 101 + k \<Longrightarrow> thesis"
    show thesis
      using a(1) a(2)[of "n - 35"] a(3)[of "n - 56"] a(4)[of "n - 101"] by linarith
  qed
  then show ?thesis
  proof cases
    case 1
    then show ?thesis by (simp add: run64_first)
  next
    case 2
    then show ?thesis by (simp add: run64_second)
  next
    case 3
    then show ?thesis by (simp add: run64_third)
  next
    case 4
    then show ?thesis by (simp add: run64_end)
  qed
qed

text \<open>
  Claim C3. The default sequence has the durations 3.5, 2.0 and 4.5. Played from
  the initial state in double arithmetic, the index is 0 up to tick 34, becomes 1 on
  tick 35 (elapsed time 3.5000000000000018), is still 1 after tick 55
  (5.4999999999999964, just short of 5.5), becomes 2 on tick 56
  (5.599999999999996), and tick 101 stops playback with the elapsed time left at
  9.99999999999998; each transition is within one tick interval of the nominal
  3.5 s, 5.5 s and 10.0 s, nothing changes after the stop, and the index is never
  above 2.
\<close>

theorem default_playback:
  "map duration DEFAULT_SHOTS = [35 / 10, 20 / 10, 45 / 10]
   \<and> initialPlayer = \<lparr>currentIndex = 0, isPlaying = True, elapsedTime = 0\<rparr>
   \<and> run64 34 DEFAULT_SHOTS initialPlayer
       = Inr \<lparr>currentIndex = 0, isPlaying = True,
              elapsedTime = 7656119366529847 / 2251799813685248\<rparr>
   \<and> run64 35 DEFAULT_SHOTS initialPlayer
       = Inr \<lparr>currentIndex = 1, isPlaying = True,
              elapsedTime = 1970324836974593 / 562949953421312\<rparr>
   \<and> \<bar>1970324836974593 / 562949953421312 - 35 / 10\<bar> \<le> tick_seconds64
   \<and> run64 55 DEFAULT_SHOTS initialPlayer
       = Inr \<lparr>currentIndex = 1, isPlaying = True,
              elapsedTime = 1548112371908607 / 281474976710656\<rparr>
   \<and> run64 56 DEFAULT_SHOTS initialPlayer
       = Inr \<lparr>currentIndex = 2, isPlaying = True,
              elapsedTime = 3152519739159345 / 562949953421312\<rparr>
   \<and> \<bar>3152519739159345 / 562949953421312 - 55 / 10\<bar> \<le> tick_seconds64
   \<and> run64 100 DEFAULT_SHOTS initialPlayer
       = Inr \<lparr>currentIndex = 2, isPlaying = True,
              elapsedTime = 5629499534213109 / 562949953421312\<rparr>
   \<and> run64 101 DEFAULT_SHOTS initialPlayer
       = Inr \<lparr>currentIndex = 2, isPlaying = False,
              elapsedTime = 5629499534213109 / 562949953421312\<rparr>
   \<and> \<bar>5629499534213109 / 562949953421312 - 10\<bar> \<le> tick_seconds64
   \<and> (\<forall>n. run64 n DEFAULT_SHOTS initialPlayer =
         Inr \<lparr>currentIndex = (if n < 35 then 0 else if n < 56 then 1 else 2),
              isPlaying = (n < 101),
              elapsedTime = ticks64 (min n 100)\<rparr>)
   \<and> (\<forall>n. \<exists>st. run64 n DEFAULT_SHOTS initialPlayer = Inr st \<and> currentIndex st \<le> 2)"
proof -
  have "\<forall>n. \<exists>st. run64 n DEFAULT_SHOTS initialPlayer = Inr st \<and> currentIndex st \<le> 2"
    by (simp add: default_run64)
  moreover have "\<forall>n. run64 n DEFAULT_SHOTS initialPlayer =
         Inr \<lparr>currentIndex = (if n < 35 then 0 else if n < 56 then 1 else 2),
              isPlaying = (n < 101),
              elapsedTime = ticks64 (min n 100)\<rparr>"
    using default_run64 by blast
  moreover have "run64 34 DEFAULT_SHOTS initialPlayer
       = Inr \<lparr>currentIndex = 0, isPlaying = True,
              elapsedTime = 7656119366529847 / 2251799813685248\<rparr>"
    by (simp add: default_run64 ticks64_values)
  moreover have "run64 35 DEFAULT_SHOTS initialPlayer
       = Inr \<lparr>currentIndex = 1, isPlaying = True,
              elapsedTime = 1970324836974593 / 562949953421312\<rparr>"
    by (simp add: default_run64 ticks64_values)
  moreover have "run64 55 DEFAULT_SHOTS initialPlayer
       = Inr \<lparr>currentIndex = 1, isPlaying = True,
              elapsedTime = 1548112371908607 / 281474976710656\<rparr>"
    by (simp add: default_run64 ticks64_values)
  moreover have "run64 56 DEFAULT_SHOTS initialPlayer
       = Inr \<lparr>currentIndex = 2, isPlaying = True,
              elapsedTime = 3152519739159345 / 562949953421312\<rparr>"
    by (simp add: default_run64 ticks64_values)
  moreover have "run64 100 DEFAULT_SHOTS initialPlayer
       = Inr \<lparr>currentIndex = 2, isPlaying = True,
              elapsedTime = 5629499534213109 / 562949953421312\<rparr>"
    by (simp add: default_run64 ticks64_values)
  moreover have "run64 101 DEFAULT_SHOTS initialPlayer
       = Inr \<lparr>currentIndex = 2, isPlaying = False,
              elapsedTime = 5629499534213109 / 562949953421312\<rparr>"
    by (simp add: default_run64 ticks64_values)
  moreover have "\<bar>1970324836974593 / 562949953421312 - 35 / 10\<bar> \<le> tick_seconds64"
    "\<bar>3152519739159345 / 562949953421312 - 55 / 10\<bar> \<le> tick_seconds64"
    "\<bar>5629499534213109 / 562949953421312 - 10\<bar> \<le> tick_seconds64"
    by (simp_all add: tick_seconds64_val)
  ultimately show ?thesis
    by (simp only: default_durations initialPlayer_def simp_thms)
qed

lemma default_total64: "totalDuration64 DEFAULT_SHOTS = 10"
  using endTime64_take[of 2 DEFAULT_SHOTS]
  by (simp add: totalDuration64_def default_length default_ends64)

lemma reach64_100:
  "reach64 DEFAULT_SHOTS \<lparr>currentIndex = 2, isPlaying = True,
     elapsedTime = 5629499534213109 / 562949953421312\<rparr>"
proof -
  have "run64 100 DEFAULT_SHOTS initialPlayer = Inr \<lparr>currentIndex = 2, isPlaying = True,
     elapsedTime = 5629499534213109 / 562949953421312\<rparr>"
    by (simp add: default_run64 ticks64_values)
  with reach64_init show ?thesis by (rule run64_reach)
qed

text \<open>
  Claim C10, amended. The tick that ends playback sets \<open>isPlaying\<close> to false
  and leaves \<open>elapsedTime\<close> as it was; and for every sequence whose shots all
  last at least one tick interval (and whose total duration is a finite double),
  \<open>elapsedTime\<close> never exceeds \<open>totalDuration\<close> in any reachable state. It can
  equal it, since every sum is rounded.
\<close>

theorem elapsed_within_total:
  assumes "ss \<noteq> []" and "\<forall>s\<in>set ss. tick_seconds64 \<le> duration s"
    and "totalDuration64 ss < 2 ^ 1024" and "reach64 ss st"
  shows "elapsedTime st \<le> totalDuration64 ss
     \<and> (isPlaying st \<and> Suc (currentIndex st) = length ss
          \<and> shotEndTime64 ss (currentIndex st) \<le> fadd (elapsedTime st) tick_seconds64
        \<longrightarrow> tick64 ss st = Inr (st\<lparr>isPlaying := False\<rparr>)
            \<and> elapsedTime (st\<lparr>isPlaying := False\<rparr>) = elapsedTime st)"
proof -
  have idx: "currentIndex st < length ss"
    using assms(4) assms(1) by (rule reach64_index_bound)
  have nonneg: "\<forall>s\<in>set ss. 0 \<le> duration s"
    using assms(2) tick_seconds64_pos by force
  have "elapsedTime st \<le> shotEndTime64 ss (currentIndex st)"
    using reach64_bounds[OF assms(1,2,4)] by simp
  also have "\<dots> \<le> totalDuration64 ss"
    using nonneg idx by (rule endTime64_le_total)
  finally have "elapsedTime st \<le> totalDuration64 ss" .
  then show ?thesis using idx by (simp add: tick64_unfold)
qed

theorem elapsed_within_total_witness:
  "DEFAULT_SHOTS \<noteq> []
   \<and> map duration DEFAULT_SHOTS = [35 / 10, 20 / 10, 45 / 10]
   \<and> tick_seconds64 = 3602879701896397 / 36028797018963968
   \<and> totalDuration64 DEFAULT_SHOTS = 10
   \<and> reach64 DEFAULT_SHOTS \<lparr>currentIndex = 2, isPlaying = True,
        elapsedTime = 5629499534213109 / 562949953421312\<rparr>
   \<and> (5629499534213109 / 562949953421312 :: rat) \<le> totalDuration64 DEFAULT_SHOTS
   \<and> tick64 DEFAULT_SHOTS \<lparr>currentIndex = 2, isPlaying = True,
        elapsedTime = 5629499534213109 / 562949953421312\<rparr>
       = Inr \<lparr>currentIndex = 2, isPlaying = False,
              elapsedTime = 5629499534213109 / 562949953421312\<rparr>"
proof -
  have ne: "DEFAULT_SHOTS \<noteq> []" using default_length by auto
  have "\<forall>d\<in>set (map duration DEFAULT_SHOTS). tick_seconds64 \<le> d"
    unfolding default_durations by (simp add: tick_seconds64_val)
  then have long: "\<forall>s\<in>set DEFAULT_SHOTS. tick_seconds64 \<le> duration s" by simp
  have fin: "totalDuration64 DEFAULT_SHOTS < 2 ^ 1024" by (simp add: default_total64)
  have e: "fadd (5629499534213109 / 562949953421312) (3602879701896397 / 36028797018963968)
           = 710724316194405 / 70368744177664"
    using ticks64_next(3) by (simp only: ticks64_values tick_seconds64_val)
  show ?thesis
    using elapsed_within_total[OF ne long fin reach64_100] ne reach64_100
    by (simp add: default_length default_ends64 default_durations default_total64 e
        tick_seconds64_val)
qed

theorem elapsed_within_total_counterexample:
  "length brief_shots = 2
   \<and> 0 < duration (brief_shots ! 0) \<and> 0 < duration (brief_shots ! 1)
   \<and> reach64 brief_shots \<lparr>currentIndex = 1, isPlaying = True,
        elapsedTime = 3602879701896397 / 36028797018963968\<rparr>
   \<and> totalDuration64 brief_shots = 1261007895663739 / 18014398509481984
   \<and> \<not> (3602879701896397 / 36028797018963968 < totalDuration64 brief_shots)
   \<and> length tenth_shots = 2
   \<and> tick_seconds64 \<le> duration (tenth_shots ! 0) \<and> tick_seconds64 \<le> duration (tenth_shots ! 1)
   \<and> reach64 tenth_shots \<lparr>currentIndex = 1, isPlaying = True,
        elapsedTime = 3602879701896397 / 18014398509481984\<rparr>
   \<and> totalDuration64 tenth_shots = 3602879701896397 / 18014398509481984
   \<and> \<not> (3602879701896397 / 18014398509481984 < totalDuration64 tenth_shots)"
proof -
  have a: "fadd 0 (3602879701896397 / 72057594037927936) = 3602879701896397 / 72057594037927936"
    by (rule fadd_eval[where k = 57 and n = 7205759403792794]) simp_all
  have b: "fadd (3602879701896397 / 72057594037927936) (5764607523034235 / 288230376151711744)
           = 1261007895663739 / 18014398509481984"
    by (rule fadd_eval[where k = 56 and n = 5044031582654956]) simp_all
  have c: "fadd 0 (3602879701896397 / 36028797018963968) = 3602879701896397 / 36028797018963968"
    by (rule fadd_eval[where k = 56 and n = 7205759403792794]) simp_all
  have d: "fadd 0 (7205759403792795 / 72057594037927936) = 7205759403792795 / 72057594037927936"
    by (rule fadd_eval[where k = 56 and n = 7205759403792795]) simp_all
  have e: "fadd (7205759403792795 / 72057594037927936) (3602879701896397 / 36028797018963968)
           = 3602879701896397 / 18014398509481984"
    by (rule fadd_tie[where k = 55 and f = 7205759403792794]) simp_all
  have f: "fadd (3602879701896397 / 36028797018963968) (3602879701896397 / 36028797018963968)
           = 3602879701896397 / 18014398509481984"
    by (rule fadd_eval[where k = 55 and n = 7205759403792794]) simp_all
  have t: "tick64 brief_shots initialPlayer
           = Inr \<lparr>currentIndex = 1, isPlaying = True,
                  elapsedTime = 3602879701896397 / 36028797018963968\<rparr>"
    by (simp add: tick64_def currentShot_def currentShotStartTime64_def Let_def
        initialPlayer_def brief_shots_def tick_seconds64_val a c)
  have r1: "reach64 brief_shots \<lparr>currentIndex = 1, isPlaying = True,
              elapsedTime = 3602879701896397 / 36028797018963968\<rparr>"
    using reach64_init _ t by (rule reach64_tick) (simp add: initialPlayer_def)
  have t1: "tick64 tenth_shots initialPlayer
           = Inr \<lparr>currentIndex = 0, isPlaying = True,
                  elapsedTime = 3602879701896397 / 36028797018963968\<rparr>"
    by (simp add: tick64_def currentShot_def currentShotStartTime64_def Let_def
        initialPlayer_def tenth_shots_def tick_seconds64_val c d)
  have t2: "tick64 tenth_shots \<lparr>currentIndex = 0, isPlaying = True,
                  elapsedTime = 3602879701896397 / 36028797018963968\<rparr>
           = Inr \<lparr>currentIndex = 1, isPlaying = True,
                  elapsedTime = 3602879701896397 / 18014398509481984\<rparr>"
    by (simp add: tick64_def currentShot_def currentShotStartTime64_def Let_def
        tenth_shots_def tick_seconds64_val d f)
  have "reach64 tenth_shots \<lparr>currentIndex = 0, isPlaying = True,
                  elapsedTime = 3602879701896397 / 36028797018963968\<rparr>"
    using reach64_init _ t1 by (rule reach64_tick) (simp add: initialPlayer_def)
  then have r2: "reach64 tenth_shots \<lparr>currentIndex = 1, isPlaying = True,
                  elapsedTime = 3602879701896397 / 18014398509481984\<rparr>"
    using _ t2 by (rule reach64_tick) simp
  have tot1: "totalDuration64 brief_shots = 1261007895663739 / 18014398509481984"
    by (simp add: totalDuration64_def brief_shots_def a b)
  have tot2: "totalDuration64 tenth_shots = 3602879701896397 / 18014398509481984"
    by (simp add: totalDuration64_def tenth_shots_def d e)
  have rest: "length brief_shots = 2 \<and> 0 < duration (brief_shots ! 0)
      \<and> 0 < duration (brief_shots ! 1) \<and> length tenth_shots = 2
      \<and> tick_seconds64 \<le> duration (tenth_shots ! 0)
      \<and> tick_seconds64 \<le> duration (tenth_shots ! 1)"
    by (simp add: brief_shots_def tenth_shots_def tick_seconds64_val)
  show ?thesis using r1 r2 rest by (simp add: tot1 tot2)
qed

section \<open>Properties of the shot operations\<close>

lemma length_renumber: "length (renumber xs) = length xs"
  by (simp add: renumber_def)

lemma nth_renumber: "i < length xs \<Longrightarrow> renumber xs ! i = (xs ! i)\<lparr>number := i + 1\<rparr>"
  by (simp add: renumber_def nth_enumerate_eq)

lemma numbers_renumber: "map number (renumber xs) = [1..<Suc (length xs)]"
proof -
  have "map number (renumber xs) = map (\<lambda>p. Suc (fst p)) (enumerate 0 xs)"
    by (simp add: renumber_def case_prod_beta)
  also have "\<dots> = map Suc (map fst (enumerate 0 xs))"
    by (simp only: map_map comp_def)
  also have "\<dots> = [1..<Suc (length xs)]"
    by (simp only: map_fst_enumerate map_Suc_upt add_0 One_nat_def)
  finally show ?thesis .
qed


lemma sans_renumber: "map sans_number (renumber xs) = map sans_number xs"
  by (rule nth_equalityI) (simp_all add: length_renumber nth_renumber sans_number_def)


lemma splice_remove:
  "i < length xs \<Longrightarrow> splice i (Suc 0) [] xs = ([xs ! i], take i xs @ drop (Suc i) xs)"
  by (simp add: splice_def Let_def min_def take_Suc_conv_app_nth Cons_nth_drop_Suc[symmetric])

lemma splice_insert:
  "j \<le> length xs \<Longrightarrow> splice j 0 [x] xs = ([], take j xs @ [x] @ drop j xs)"
  by (simp add: splice_def Let_def min_def)

lemma movedShots_valid:
  assumes "i < length xs" and "j < length xs"
  shows "movedShots i j xs =
     Inr (renumber (take j (take i xs @ drop (Suc i) xs) @ xs ! i
                    # drop j (take i xs @ drop (Suc i) xs)))"
proof -
  have "j \<le> length (take i xs @ drop (Suc i) xs)" using assms by simp
  then show ?thesis
    using assms(1) by (simp add: movedShots_def splice_remove splice_insert)
qed



lemma find_or_first_mem: "find_or_first P xs = Some x \<Longrightarrow> x \<in> set xs"
  by (auto simp: find_or_first_def find_Some_iff split: option.splits list.splits)

lemma derived_mem:
  "derived a = Inr (ap, asb) \<Longrightarrow> ap \<in> set (projects a) \<and> asb \<in> set (storyboards ap)"
  by (auto simp: derived_def activeProject_def activeStoryboard_def
      split: option.splits dest: find_or_first_mem)



lemma find_map_preserve:
  "(\<And>x. P (f x) = P x) \<Longrightarrow> find P (map f xs) = map_option f (find P xs)"
  by (induction xs) simp_all

lemma find_or_first_map:
  "(\<And>x. P (f x) = P x) \<Longrightarrow> find_or_first P (map f xs) = map_option f (find_or_first P xs)"
  by (cases xs) (simp_all add: find_or_first_def find_map_preserve split: option.splits)

lemma derived_write_back:
  assumes d: "derived a = Inr (ap, asb)" and byid: "proj_id ap = activeProjectId a"
    and pr: "projects a' = withProject a (withStoryboard ap asb (asb\<lparr>shots := new\<rparr>))"
    and ai: "activeProjectId a' = activeProjectId a"
  shows "derived a' = Inr (withStoryboard ap asb (asb\<lparr>shots := new\<rparr>), asb\<lparr>shots := new\<rparr>)"
proof -
  let ?usb = "asb\<lparr>shots := new\<rparr>"
  let ?up = "withStoryboard ap asb ?usb"
  have a1: "activeProject a = Some ap" and a2: "activeStoryboard ap = Some asb"
    using d by (auto simp: derived_def split: option.splits)
  have idup: "proj_id ?up = activeProjectId a" using byid by (simp add: withStoryboard_def)
  have "activeProject a' =
        map_option (\<lambda>p. if proj_id p = activeProjectId a then ?up else p) (activeProject a)"
    unfolding activeProject_def pr ai withProject_def
    by (rule find_or_first_map) (simp add: idup)
  then have p': "activeProject a' = Some ?up" using a1 byid by simp
  have "activeStoryboard ?up =
        map_option (\<lambda>sb. if sb_id sb = sb_id asb then ?usb else sb) (activeStoryboard ap)"
    unfolding activeStoryboard_def withStoryboard_def
    by (simp, rule find_or_first_map) simp
  then have "activeStoryboard ?up = Some ?usb" using a2 by simp
  then show ?thesis using p' by (simp add: derived_def)
qed







text \<open>
  The write-back of every handler and the updater of \<open>updateShot\<close> select the
  project by \<open>p.id === activeProjectId\<close>, while the render falls back to
  \<open>projects[0]\<close>. When \<open>activeProjectId\<close> names no project of the store (the
  initial value is the constant \<open>p-1\<close>, whatever was saved), they change
  nothing; the lemmas below about what an operation does to its storyboard
  therefore assume that the active project was found by its id.
\<close>

lemma unmatched_project_no_write:
  assumes "\<forall>p\<in>set (projects a). proj_id p \<noteq> activeProjectId a"
  shows "withProject a up = projects a"
    and "updateShot (activeProjectId a) shotId u (projects a) = projects a"
  using assms by (simp_all add: withProject_def updateShot_def map_idI)

lemma insert_at:
  assumes "j \<le> length rest"
  shows "take j (take j rest @ x # drop j rest) @ drop (Suc j) (take j rest @ x # drop j rest) = rest"
    and "(take j rest @ x # drop j rest) ! j = x"
    and "length (take j rest @ x # drop j rest) = Suc (length rest)"
  using assms by (simp_all add: nth_append min_absorb2)

lemma abc_derived: "derived abc_app = Inr (abc_project, abc_storyboard)"
  by (simp add: abc_app_def abc_project_def abc_storyboard_def initialApp_def derived_def
      activeProject_def activeStoryboard_def find_or_first_def)

lemma abc_length: "length abc_shots = 3"
  by (simp add: abc_shots_def)

lemma abc_moved:
  "(case handleMoveShot 0 2 abc_app of
      Inl e \<Rightarrow> False
    | Inr a' \<Rightarrow>
        (case derived a' of
           Inl e \<Rightarrow> False
         | Inr (ap', asb') \<Rightarrow>
             map title (shots asb') = [''B'', ''C'', ''A'']
             \<and> map number (shots asb') = [1, 2, 3]))"
  by code_simp

text \<open>
  When the active project is found by its id, and both indices are valid,
  \<open>handleMoveShot\<close> is a no-op for equal indices; otherwise the shot that was at
  \<open>fromIndex\<close> is afterwards at \<open>toIndex\<close>, the other shots keep their order (a
  removal and a reinsertion, not a swap), and the numbers are 1, 2, ... in list
  order. Moving index 0 to index 2 in A, B, C gives B, C, A numbered 1, 2, 3.
\<close>

lemma move_is_splice:
  assumes "derived a = Inr (ap, asb)" and "proj_id ap = activeProjectId a"
    and "fromIndex < length (shots asb)" and "toIndex < length (shots asb)"
  shows "(fromIndex = toIndex \<longrightarrow> handleMoveShot fromIndex toIndex a = Inr a)
    \<and> (fromIndex \<noteq> toIndex \<longrightarrow>
        (\<exists>a' ap' asb'.
            handleMoveShot fromIndex toIndex a = Inr a' \<and> derived a' = Inr (ap', asb')
          \<and> length (shots asb') = length (shots asb)
          \<and> shots asb' ! toIndex = (shots asb ! fromIndex)\<lparr>number := toIndex + 1\<rparr>
          \<and> map sans_number (take toIndex (shots asb') @ drop (Suc toIndex) (shots asb'))
              = map sans_number (take fromIndex (shots asb) @ drop (Suc fromIndex) (shots asb))
          \<and> map number (shots asb') = [1..<Suc (length (shots asb))]))"
proof (intro conjI impI)
  assume "fromIndex = toIndex"
  then show "handleMoveShot fromIndex toIndex a = Inr a"
    using assms(1) by (simp add: handleMoveShot_def)
next
  assume ne: "fromIndex \<noteq> toIndex"
  define xs where "xs = shots asb"
  define rest where "rest = take fromIndex xs @ drop (Suc fromIndex) xs"
  define ys where "ys = take toIndex rest @ xs ! fromIndex # drop toIndex rest"
  define r where "r = renumber ys"
  define usb where "usb = asb\<lparr>shots := r\<rparr>"
  define a' where "a' = a\<lparr>projects := withProject a (withStoryboard ap asb usb)\<rparr>"
  have lrest: "Suc (length rest) = length xs"
    using assms(3) by (simp add: rest_def xs_def)
  have to: "toIndex \<le> length rest" using assms(4) lrest by (simp add: xs_def)
  have lys: "length ys = length xs"
    unfolding ys_def using insert_at(3)[OF to] lrest by simp
  have m: "movedShots fromIndex toIndex (shots asb) = Inr r"
    using movedShots_valid[OF assms(3,4)] by (simp add: r_def ys_def rest_def xs_def)
  have h: "handleMoveShot fromIndex toIndex a = Inr a'"
    using assms(1) ne m by (simp add: handleMoveShot_def Let_def a'_def usb_def)
  have d: "derived a' = Inr (withStoryboard ap asb usb, usb)"
    unfolding usb_def using assms(1,2) by (rule derived_write_back) (simp_all add: a'_def usb_def)
  have l: "length r = length xs" by (simp only: r_def length_renumber lys)
  have "ys ! toIndex = xs ! fromIndex"
    unfolding ys_def using to by (rule insert_at(2))
  then have n: "r ! toIndex = (xs ! fromIndex)\<lparr>number := toIndex + 1\<rparr>"
    using assms(4) lys by (simp add: r_def nth_renumber xs_def)
  have "take toIndex ys @ drop (Suc toIndex) ys = rest"
    unfolding ys_def using to by (rule insert_at(1))
  then have "map sans_number (take toIndex r @ drop (Suc toIndex) r) = map sans_number rest"
    unfolding r_def by (metis drop_map map_append sans_renumber take_map)
  moreover have "map number r = [1..<Suc (length xs)]"
    by (simp only: r_def numbers_renumber lys)
  ultimately have "handleMoveShot fromIndex toIndex a = Inr a'
      \<and> derived a' = Inr (withStoryboard ap asb usb, usb)
      \<and> length (shots usb) = length (shots asb)
      \<and> shots usb ! toIndex = (shots asb ! fromIndex)\<lparr>number := toIndex + 1\<rparr>
      \<and> map sans_number (take toIndex (shots usb) @ drop (Suc toIndex) (shots usb))
          = map sans_number (take fromIndex (shots asb) @ drop (Suc fromIndex) (shots asb))
      \<and> map number (shots usb) = [1..<Suc (length (shots asb))]"
    using h d l n by (simp add: usb_def rest_def xs_def)
  then show "\<exists>a' ap' asb'.
            handleMoveShot fromIndex toIndex a = Inr a' \<and> derived a' = Inr (ap', asb')
          \<and> length (shots asb') = length (shots asb)
          \<and> shots asb' ! toIndex = (shots asb ! fromIndex)\<lparr>number := toIndex + 1\<rparr>
          \<and> map sans_number (take toIndex (shots asb') @ drop (Suc toIndex) (shots asb'))
              = map sans_number (take fromIndex (shots asb) @ drop (Suc fromIndex) (shots asb))
          \<and> map number (shots asb') = [1..<Suc (length (shots asb))]"
    by blast
qed

lemma move_is_splice_example:
  "(\<exists>a' ap' asb'.
      handleMoveShot 0 2 abc_app = Inr a' \<and> derived a' = Inr (ap', asb')
      \<and> length (shots asb') = 3
      \<and> shots asb' ! 2 = (abc_shots ! 0)\<lparr>number := 3\<rparr>
      \<and> map number (shots asb') = [1, 2, 3])
   \<and> handleMoveShot 1 1 abc_app = Inr abc_app
   \<and> (case handleMoveShot 0 2 abc_app of
        Inl e \<Rightarrow> False
      | Inr a' \<Rightarrow>
          (case derived a' of
             Inl e \<Rightarrow> False
           | Inr (ap', asb') \<Rightarrow>
               map title (shots asb') = [''B'', ''C'', ''A'']
               \<and> map number (shots asb') = [1, 2, 3]))"
proof -
  have pid: "proj_id abc_project = activeProjectId abc_app"
    by (simp add: abc_project_def abc_app_def initialApp_def)
  have sh: "shots abc_storyboard = abc_shots" by (simp add: abc_storyboard_def)
  have u: "[Suc 0..<4] = [Suc 0, 2, 3]" by code_simp
  from move_is_splice[OF abc_derived pid, of 0 2]
  obtain a' ap' asb' where w: "handleMoveShot 0 2 abc_app = Inr a'"
    "derived a' = Inr (ap', asb')"
    "length (shots asb') = 3"
    "shots asb' ! 2 = (abc_shots ! 0)\<lparr>number := 3\<rparr>"
    "map number (shots asb') = [1, 2, 3]"
    by (auto simp: sh abc_length u)
  have same: "handleMoveShot 1 1 abc_app = Inr abc_app"
    using move_is_splice[OF abc_derived pid, of 1 1] by (simp add: sh abc_length)
  have ex: "\<exists>a' ap' asb'.
      handleMoveShot 0 2 abc_app = Inr a' \<and> derived a' = Inr (ap', asb')
      \<and> length (shots asb') = 3
      \<and> shots asb' ! 2 = (abc_shots ! 0)\<lparr>number := 3\<rparr>
      \<and> map number (shots asb') = [1, 2, 3]"
    by (intro exI[of _ a'] exI[of _ ap'] exI[of _ asb'] conjI) (rule w)+
  show ?thesis by (intro conjI) (rule ex, rule same, rule abc_moved)
qed

lemma reloaded_derived: "derived reloaded_app = Inr (reloaded_project, abc_storyboard)"
  by (simp add: reloaded_app_def reloaded_project_def abc_project_def abc_storyboard_def
      initialApp_def derived_def activeProject_def activeStoryboard_def find_or_first_def)

text \<open>
  Claim C7, at an input where the code breaks it. In the reloaded store
  \<open>activeProjectId\<close> is \<open>p-1\<close> and the only project has another id; the render
  falls back to that project and shows its shots A, B, C, numbered 1, 2, 3. Moving
  index 0 to index 2, both valid, leaves the store as it was: the moved
  sequence is written to the project whose id is \<open>activeProjectId\<close>, and there
  is none.
\<close>

theorem move_lost_on_reloaded_store:
  "activeProjectId reloaded_app = ''p-1''
   \<and> map proj_id (projects reloaded_app) = [''p-1762110000000'']
   \<and> derived reloaded_app = Inr (reloaded_project, abc_storyboard)
   \<and> map title (shots abc_storyboard) = [''A'', ''B'', ''C'']
   \<and> map number (shots abc_storyboard) = [1, 2, 3]
   \<and> movedShots 0 2 (shots abc_storyboard) \<noteq> Inr (shots abc_storyboard)
   \<and> handleMoveShot 0 2 reloaded_app = Inr reloaded_app"
proof -
  have ids: "activeProjectId reloaded_app = ''p-1''
             \<and> map proj_id (projects reloaded_app) = [''p-1762110000000'']"
    by (simp add: reloaded_app_def reloaded_project_def initialApp_def)
  have sh: "map title (shots abc_storyboard) = [''A'', ''B'', ''C'']
            \<and> map number (shots abc_storyboard) = [1, 2, 3]"
    by (simp add: abc_storyboard_def abc_shots_def)
  have m: "movedShots 0 2 (shots abc_storyboard)
           = Inr [(abc_shots ! 1)\<lparr>number := 1\<rparr>, (abc_shots ! 2)\<lparr>number := 2\<rparr>,
                  (abc_shots ! 0)\<lparr>number := 3\<rparr>]"
    by (simp add: movedShots_def splice_def renumber_def abc_storyboard_def abc_shots_def Let_def)
  have ne: "movedShots 0 2 (shots abc_storyboard) \<noteq> Inr (shots abc_storyboard)"
    unfolding m by (simp add: abc_storyboard_def abc_shots_def)
  have "\<forall>p\<in>set (projects reloaded_app). proj_id p \<noteq> activeProjectId reloaded_app"
    by (simp add: reloaded_app_def reloaded_project_def initialApp_def)
  then have w: "withProject reloaded_app up = projects reloaded_app" for up
    by (rule unmatched_project_no_write)
  have "handleMoveShot 0 2 reloaded_app = Inr reloaded_app"
    by (simp add: handleMoveShot_def reloaded_derived m Let_def w)
  then show ?thesis using ids sh ne reloaded_derived by simp
qed

lemma default_derived:
  "derived (initialApp None) = Inr (hd DEFAULT_PROJECTS, hd DEFAULT_STORYBOARDS)"
  by (simp add: initialApp_def DEFAULT_PROJECTS_def DEFAULT_STORYBOARDS_def derived_def
      activeProject_def activeStoryboard_def find_or_first_def)






section \<open>Properties of the regeneration flow\<close>

lemma find_Some_holds: "find P xs = Some x \<Longrightarrow> P x"
  by (induction xs) (auto split: if_splits)

lemma updateShot_lookup:
  assumes ap: "activeProject a = Some ap" and byid: "proj_id ap = activeProjectId a"
    and uid: "u_id u = None"
    and pr: "projects a' = updateShot (activeProjectId a) shotId u (projects a)"
    and ai: "activeProjectId a' = activeProjectId a"
  shows "\<exists>ap'. activeProject a' = Some ap' \<and> proj_id ap' = proj_id ap
           \<and> aspectRatio ap' = aspectRatio ap
           \<and> findShot ap' shotId = map_option (\<lambda>s. merge_shot s u) (findShot ap shotId)"
proof -
  define H :: "shot \<Rightarrow> shot" where "H = (\<lambda>s. if shot_id s = shotId then merge_shot s u else s)"
  define G :: "project \<Rightarrow> storyboard \<Rightarrow> storyboard" where "G = (\<lambda>p sb. if sb_id sb = activeStoryboardId p
                               then sb\<lparr>shots := map H (shots sb)\<rparr> else sb)"
  define F :: "project \<Rightarrow> project" where "F = (\<lambda>p. if proj_id p = activeProjectId a
                             then p\<lparr>storyboards := map (G p) (storyboards p)\<rparr> else p)"
  have up: "updateShot (activeProjectId a) shotId u (projects a) = map F (projects a)"
    by (simp add: updateShot_def F_def G_def H_def)
  have Fid: "proj_id (F p) = proj_id p" for p by (simp add: F_def)
  have Gid: "sb_id (G p sb) = sb_id sb" for p sb by (simp add: G_def)
  have Hid: "shot_id (H s) = shot_id s" for s using uid by (simp add: H_def merge_shot_def)
  have "activeProject a' = map_option F (activeProject a)"
    unfolding activeProject_def pr ai up by (rule find_or_first_map) (simp add: Fid)
  then have a': "activeProject a' = Some (F ap)" using ap by simp
  have Fap: "F ap = ap\<lparr>storyboards := map (G ap) (storyboards ap)\<rparr>"
    using byid by (simp add: F_def)
  have "find (\<lambda>sb. sb_id sb = activeStoryboardId ap) (map (G ap) (storyboards ap))
        = map_option (G ap) (find (\<lambda>sb. sb_id sb = activeStoryboardId ap) (storyboards ap))"
    by (rule find_map_preserve) (simp add: Gid)
  then have fm: "find (\<lambda>sb. sb_id sb = activeStoryboardId ap) (storyboards (F ap))
        = map_option (G ap) (find (\<lambda>sb. sb_id sb = activeStoryboardId ap) (storyboards ap))"
    by (simp add: Fap)
  have cs: "currentShots (F ap) = map H (currentShots ap)"
  proof (cases "find (\<lambda>sb. sb_id sb = activeStoryboardId ap) (storyboards ap)")
    case None
    then show ?thesis using fm by (simp add: currentShots_def Fap)
  next
    case (Some sb0)
    then have "sb_id sb0 = activeStoryboardId ap" by (rule find_Some_holds)
    then show ?thesis using fm Some by (simp add: currentShots_def Fap G_def)
  qed
  have "find (\<lambda>s. shot_id s = shotId) (map H (currentShots ap))
        = map_option H (find (\<lambda>s. shot_id s = shotId) (currentShots ap))"
    by (rule find_map_preserve) (simp add: Hid)
  then have "findShot (F ap) shotId = map_option H (findShot ap shotId)"
    by (simp add: findShot_def cs)
  moreover have "map_option H (findShot ap shotId)
                 = map_option (\<lambda>s. merge_shot s u) (findShot ap shotId)"
    by (cases "findShot ap shotId") (auto simp: findShot_def H_def dest: find_Some_holds)
  ultimately show ?thesis using a' by (simp add: Fap)
qed

lemma updateShot_targets:
  assumes "p \<in> set (updateShot apid shotId u ps)" and "proj_id p = apid"
    and "sb \<in> set (storyboards p)" and "sb_id sb = activeStoryboardId p"
    and "s \<in> set (shots sb)" and "shot_id s = shotId" and "u_id u = None"
  shows "\<exists>s0. s = merge_shot s0 u"
proof -
  obtain p0 where p0: "p0 \<in> set ps" "proj_id p0 = apid"
      and p: "p = p0\<lparr>storyboards :=
                map (\<lambda>sb. if sb_id sb = activeStoryboardId p0
                           then sb\<lparr>shots := map (\<lambda>s. if shot_id s = shotId
                                                      then merge_shot s u else s) (shots sb)\<rparr>
                           else sb) (storyboards p0)\<rparr>"
    using assms(1,2) by (auto simp: updateShot_def split: if_splits)
  obtain sb0 where sb: "sb = sb0\<lparr>shots := map (\<lambda>s. if shot_id s = shotId
                                     then merge_shot s u else s) (shots sb0)\<rparr>"
    using assms(3,4) p by (auto split: if_splits)
  obtain s0 where "s0 \<in> set (shots sb0)"
      and s: "s = (if shot_id s0 = shotId then merge_shot s0 u else s0)"
    using assms(5) sb by auto
  then show ?thesis using assms(6) by (auto split: if_splits)
qed

lemma generateShotSketch_rejects: "generateShotSketch (\<lambda>_ _. Rejects) prompt ratio = None"
  by (simp add: generateShotSketch_def)

lemma merge_finished_failed:
  "imageUrl (merge_shot s (finishedUpdates promptText None)) = None
   \<and> isGenerating (merge_shot s (finishedUpdates promptText None)) = Some False
   \<and> lastGeneratedPrompt (merge_shot s (finishedUpdates promptText None)) = Some promptText"
  by (simp add: merge_shot_def finishedUpdates_def no_updates_def)

text \<open>
  When the active project is found by its id and nothing else happens while the
  call is awaited, a generation call that resolves to \<open>null\<close> ends the flow
  without an error, and the shot looked up afterwards has no \<open>imageUrl\<close> and
  \<open>isGenerating = false\<close>. Whatever the store holds when the call comes back,
  every shot that the final update reaches is left in that state; and whatever
  the service does, the flow returns normally.
\<close>

lemma uninterrupted_failure_clears_image:
  assumes "derived a = Inr (ap, asb)" and "proj_id ap = activeProjectId a"
    and "regenerationPrompt ap shotId = Some (promptText, finalPrompt)"
    and "generateShotSketch api finalPrompt (aspectRatio ap) = None"
  shows "(\<exists>a' ap' s'. forceRegenerate api Inr shotId a = Inr a'
            \<and> activeProject a' = Some ap' \<and> findShot ap' shotId = Some s'
            \<and> imageUrl s' = None \<and> isGenerating s' = Some False)
     \<and> (\<forall>prevProjects.
          \<forall>p\<in>set (updateShot (activeProjectId a) shotId (finishedUpdates promptText None)
                     prevProjects).
            proj_id p = activeProjectId a \<longrightarrow>
            (\<forall>sb\<in>set (storyboards p). sb_id sb = activeStoryboardId p \<longrightarrow>
               (\<forall>s\<in>set (shots sb). shot_id s = shotId \<longrightarrow>
                  imageUrl s = None \<and> isGenerating s = Some False)))
     \<and> (\<forall>api'. \<exists>a'. forceRegenerate api' Inr shotId a = Inr a')"
proof (intro conjI)
  define a1 where "a1 = a\<lparr>projects := updateShot (activeProjectId a) shotId startedUpdates (projects a)\<rparr>"
  define a2 where "a2 = a\<lparr>projects := updateShot (activeProjectId a) shotId
                           (finishedUpdates promptText None) (projects a1)\<rparr>"
  have act: "activeProject a = Some ap"
    using assms(1) by (auto simp: derived_def split: option.splits)
  obtain s0 where s0: "findShot ap shotId = Some s0"
    using assms(3) by (auto simp: regenerationPrompt_def split: option.splits)
  have u1: "u_id startedUpdates = None" by (simp add: startedUpdates_def no_updates_def)
  have u2: "u_id (finishedUpdates promptText None) = None"
    by (simp add: finishedUpdates_def no_updates_def)
  obtain ap1 where ap1: "activeProject a1 = Some ap1" "proj_id ap1 = proj_id ap"
      "findShot ap1 shotId = map_option (\<lambda>s. merge_shot s startedUpdates) (findShot ap shotId)"
    using updateShot_lookup[OF act assms(2) u1, of a1 shotId] by (auto simp: a1_def)
  have id1: "proj_id ap1 = activeProjectId a1" using ap1(2) assms(2) by (simp add: a1_def)
  obtain ap2 where ap2: "activeProject a2 = Some ap2"
      "findShot ap2 shotId
         = map_option (\<lambda>s. merge_shot s (finishedUpdates promptText None)) (findShot ap1 shotId)"
    using updateShot_lookup[OF ap1(1) id1 u2, of a2 shotId] by (auto simp: a1_def a2_def)
  have f: "forceRegenerate api Inr shotId a = Inr a2"
    using assms(1,3,4) by (simp add: forceRegenerate_def Let_def a2_def a1_def)
  have "findShot ap2 shotId
        = Some (merge_shot (merge_shot s0 startedUpdates) (finishedUpdates promptText None))"
    using ap2(2) ap1(3) s0 by simp
  then show "\<exists>a' ap' s'. forceRegenerate api Inr shotId a = Inr a'
            \<and> activeProject a' = Some ap' \<and> findShot ap' shotId = Some s'
            \<and> imageUrl s' = None \<and> isGenerating s' = Some False"
    using f ap2(1) merge_finished_failed by blast
next
  have u2: "u_id (finishedUpdates promptText None) = None"
    by (simp add: finishedUpdates_def no_updates_def)
  show "\<forall>prevProjects.
          \<forall>p\<in>set (updateShot (activeProjectId a) shotId (finishedUpdates promptText None)
                     prevProjects).
            proj_id p = activeProjectId a \<longrightarrow>
            (\<forall>sb\<in>set (storyboards p). sb_id sb = activeStoryboardId p \<longrightarrow>
               (\<forall>s\<in>set (shots sb). shot_id s = shotId \<longrightarrow>
                  imageUrl s = None \<and> isGenerating s = Some False))"
    using updateShot_targets[OF _ _ _ _ _ _ u2] merge_finished_failed by metis
next
  show "\<forall>api'. \<exists>a'. forceRegenerate api' Inr shotId a = Inr a'"
    using assms(1,3) by (simp add: forceRegenerate_def Let_def)
qed

lemma abc_prompt: "regenerationPrompt abc_project ''a'' = Some (''A'', ''A'')"
  by (simp add: regenerationPrompt_def findShot_def currentShots_def abc_project_def
      abc_storyboard_def abc_shots_def trim_def is_space_def Let_def)

lemma uninterrupted_failure_example:
  "findShot abc_project ''a'' = Some (abc_shots ! 0)
   \<and> imageUrl (abc_shots ! 0) = Some ''data:image/png;base64,AAAA''
   \<and> generateShotSketch (\<lambda>_ _. Rejects) ''A'' (aspectRatio abc_project) = None
   \<and> (\<exists>a' ap' s'. forceRegenerate (\<lambda>_ _. Rejects) Inr ''a'' abc_app = Inr a'
          \<and> activeProject a' = Some ap' \<and> findShot ap' ''a'' = Some s'
          \<and> imageUrl s' = None \<and> isGenerating s' = Some False)"
proof -
  have pid: "proj_id abc_project = activeProjectId abc_app"
    by (simp add: abc_project_def abc_app_def initialApp_def)
  have found: "findShot abc_project ''a'' = Some (abc_shots ! 0)"
    by (simp add: findShot_def currentShots_def abc_project_def abc_storyboard_def abc_shots_def)
  have img: "imageUrl (abc_shots ! 0) = Some ''data:image/png;base64,AAAA''"
    by (simp add: abc_shots_def)
  have ex: "\<exists>a' ap' s'. forceRegenerate (\<lambda>_ _. Rejects) Inr ''a'' abc_app = Inr a'
          \<and> activeProject a' = Some ap' \<and> findShot ap' ''a'' = Some s'
          \<and> imageUrl s' = None \<and> isGenerating s' = Some False"
    using uninterrupted_failure_clears_image[OF abc_derived pid abc_prompt generateShotSketch_rejects]
    by (rule conjunct1)
  show ?thesis
    by (intro conjI) (rule found, rule img, rule generateShotSketch_rejects, rule ex)
qed

lemma two_board_derived: "derived two_board_app = Inr (two_board_project, abc_storyboard)"
  by (simp add: two_board_app_def two_board_project_def abc_project_def abc_storyboard_def
      initialApp_def derived_def activeProject_def activeStoryboard_def find_or_first_def)

lemma two_board_prompt: "regenerationPrompt two_board_project ''a'' = Some (''A'', ''A'')"
  by (simp add: regenerationPrompt_def findShot_def currentShots_def two_board_project_def
      abc_project_def abc_storyboard_def abc_shots_def trim_def is_space_def Let_def)

lemma reloaded_prompt: "regenerationPrompt reloaded_project ''a'' = Some (''A'', ''A'')"
  by (simp add: regenerationPrompt_def findShot_def currentShots_def reloaded_project_def
      abc_project_def abc_storyboard_def abc_shots_def trim_def is_space_def Let_def)

text \<open>
  Claim C9, at two inputs where the code breaks it. In the store with two
  storyboards, the sketch of shot \<open>a\<close> of the first storyboard is regenerated, the
  call fails, and while it is awaited the tab of the second storyboard is
  clicked. The final update goes to the storyboard that is active when it
  runs, where no shot has the id: shot \<open>a\<close> is left with \<open>isGenerating = true\<close> and
  without the prompt recorded. In the reloaded store, where \<open>activeProjectId\<close>
  names no project, neither update is written, and after the failed call shot
  \<open>a\<close> still has its old image. The flow raises no error in either case.
\<close>

theorem failed_generation_not_recorded:
  "derived two_board_app = Inr (two_board_project, abc_storyboard)
   \<and> findShot two_board_project ''a'' = Some (abc_shots ! 0)
   \<and> second_storyboard \<in> set (storyboards two_board_project)
   \<and> generateShotSketch (\<lambda>_ _. Rejects) ''A'' (aspectRatio two_board_project) = None
   \<and> (case forceRegenerate (\<lambda>_ _. Rejects) (selectStoryboard second_storyboard) ''a''
             two_board_app of
        Inl e \<Rightarrow> False
      | Inr a' \<Rightarrow>
          map proj_id (projects a') = [''p-1'']
          \<and> activeStoryboardId (hd (projects a')) = ''sb-2''
          \<and> map sb_id (storyboards (hd (projects a'))) = [''sb-1'', ''sb-2'']
          \<and> map (\<lambda>s. (shot_id s, isGenerating s, imageUrl s))
                (shots (hd (storyboards (hd (projects a')))))
              = [(''a'', Some True, None), (''b'', None, None), (''c'', None, None)])
   \<and> derived reloaded_app = Inr (reloaded_project, abc_storyboard)
   \<and> findShot reloaded_project ''a'' = Some (abc_shots ! 0)
   \<and> imageUrl (abc_shots ! 0) = Some ''data:image/png;base64,AAAA''
   \<and> forceRegenerate (\<lambda>_ _. Rejects) Inr ''a'' reloaded_app = Inr reloaded_app"
proof -
  have f1: "findShot two_board_project ''a'' = Some (abc_shots ! 0)"
    by (simp add: findShot_def currentShots_def two_board_project_def abc_project_def
        abc_storyboard_def abc_shots_def)
  have f2: "findShot reloaded_project ''a'' = Some (abc_shots ! 0)"
    by (simp add: findShot_def currentShots_def reloaded_project_def abc_project_def
        abc_storyboard_def abc_shots_def)
  have mem: "second_storyboard \<in> set (storyboards two_board_project)"
    by (simp add: two_board_project_def)
  have img: "imageUrl (abc_shots ! 0) = Some ''data:image/png;base64,AAAA''"
    by (simp add: abc_shots_def)
  have g: "generateShotSketch (\<lambda>_ _. Rejects) ''A'' (aspectRatio two_board_project) = None"
    by (rule generateShotSketch_rejects)
  have run1: "(case forceRegenerate (\<lambda>_ _. Rejects) (selectStoryboard second_storyboard) ''a''
             two_board_app of
        Inl e \<Rightarrow> False
      | Inr a' \<Rightarrow>
          map proj_id (projects a') = [''p-1'']
          \<and> activeStoryboardId (hd (projects a')) = ''sb-2''
          \<and> map sb_id (storyboards (hd (projects a'))) = [''sb-1'', ''sb-2'']
          \<and> map (\<lambda>s. (shot_id s, isGenerating s, imageUrl s))
                (shots (hd (storyboards (hd (projects a')))))
              = [(''a'', Some True, None), (''b'', None, None), (''c'', None, None)])"
    by code_simp
  have "\<forall>p\<in>set (projects reloaded_app). proj_id p \<noteq> activeProjectId reloaded_app"
    by (simp add: reloaded_app_def reloaded_project_def initialApp_def)
  then have w: "updateShot (activeProjectId reloaded_app) ''a'' u (projects reloaded_app)
                = projects reloaded_app" for u
    by (rule unmatched_project_no_write)
  have run2: "forceRegenerate (\<lambda>_ _. Rejects) Inr ''a'' reloaded_app = Inr reloaded_app"
    by (simp add: forceRegenerate_def reloaded_derived reloaded_prompt Let_def w)
  show ?thesis
    by (intro conjI) (rule two_board_derived, rule f1, rule mem, rule g, rule run1,
        rule reloaded_derived, rule f2, rule img, rule run2)
qed

section \<open>Properties of the project and storyboard operations\<close>

lemma decimal_reading: "decimal 1762110000000 = ''1762110000000''"
  by (simp add: decimal.simps digit_def)

lemma decimal_next_reading: "decimal 1762110000001 = ''1762110000001''"
  by (simp add: decimal.simps digit_def)

lemma default_store_ok: "store_ok (projects (initialApp None))"
  by (simp add: store_ok_def project_ok_def initialApp_def DEFAULT_PROJECTS_def
      DEFAULT_STORYBOARDS_def)

lemma withProject_ok:
  "store_ok (projects a) \<Longrightarrow> project_ok up \<Longrightarrow> store_ok (withProject a up)"
  by (auto simp: store_ok_def withProject_def list_all_iff)

lemma derived_project_ok:
  "store_ok (projects a) \<Longrightarrow> derived a = Inr (ap, asb) \<Longrightarrow> project_ok ap"
  using derived_mem[of a ap asb] by (auto simp: store_ok_def list_all_iff)

text \<open>
  What holds of claim C8 on the code: the shot operations, deleting a
  storyboard or a project, adding a storyboard and selecting one of the active
  project's keep the invariant, a project's only storyboard cannot be deleted,
  and a new project is sound when the clock reads the same for its storyboard
  id and its \<open>activeStoryboardId\<close>.
\<close>

lemma withStoryboard_ok:
  assumes "project_ok ap"
  shows "project_ok (withStoryboard ap asb (asb\<lparr>shots := new\<rparr>))"
proof -
  have "map sb_id (map (\<lambda>sb. if sb_id sb = sb_id asb then asb\<lparr>shots := new\<rparr> else sb)
          (storyboards ap)) = map sb_id (storyboards ap)"
    by (induction "storyboards ap") auto
  then show ?thesis
    using assms unfolding project_ok_def withStoryboard_def
    by (cases "storyboards ap") (simp_all del: map_map)
qed

lemma shot_handlers_ok:
  assumes "store_ok (projects a)"
  shows "handleAddShot now a = Inr a' \<Longrightarrow> store_ok (projects a')"
    and "deleteShot shotId a = Inr a' \<Longrightarrow> store_ok (projects a')"
    and "handleMoveShot i j a = Inr a' \<Longrightarrow> store_ok (projects a')"
proof -
  have wb: "store_ok (withProject a (withStoryboard ap asb (asb\<lparr>shots := new\<rparr>)))"
    if "derived a = Inr (ap, asb)" for ap asb new
    using assms that by (intro withProject_ok withStoryboard_ok derived_project_ok)
  show "handleAddShot now a = Inr a' \<Longrightarrow> store_ok (projects a')"
    using wb by (auto simp: handleAddShot_def Let_def split: sum.splits)
  show "deleteShot shotId a = Inr a' \<Longrightarrow> store_ok (projects a')"
    using wb by (auto simp: deleteShot_def Let_def split: sum.splits)
  show "handleMoveShot i j a = Inr a' \<Longrightarrow> store_ok (projects a')"
    using wb assms by (auto simp: handleMoveShot_def Let_def split: sum.splits if_splits)
qed

lemma updateShot_ok:
  assumes "store_ok ps"
  shows "store_ok (updateShot apid shotId u ps)"
proof -
  have "project_ok (p\<lparr>storyboards := map (\<lambda>sb. if sb_id sb = k then f sb else sb) (storyboards p)\<rparr>)"
    if "project_ok p" and "\<And>sb. sb_id (f sb) = sb_id sb" for p k and f :: "storyboard \<Rightarrow> storyboard"
  proof -
    have "map sb_id (map (\<lambda>sb. if sb_id sb = k then f sb else sb) (storyboards p))
          = map sb_id (storyboards p)"
      using that(2) by (induction "storyboards p") auto
    then show ?thesis
      using that(1) unfolding project_ok_def
      by (cases "storyboards p") (simp_all del: map_map)
  qed
  then show ?thesis
    using assms by (auto simp: store_ok_def updateShot_def list_all_iff)
qed


lemma executeDelete_ok:
  assumes "store_ok (projects a)" and "executeDelete a = Inr a'"
  shows "store_ok (projects a')"
proof -
  obtain ap asb where d: "derived a = Inr (ap, asb)"
    using assms(2) by (auto simp: executeDelete_def split: sum.splits)
  have ok: "project_ok ap" using assms(1) d by (rule derived_project_ok)
  have rem: "store_ok (filter P (projects a))" for P
    using assms(1) by (auto simp: store_ok_def list_all_iff)
  have sb: "project_ok (ap\<lparr>storyboards := r # rs,
              activeStoryboardId := (if activeStoryboardId ap = i then sb_id r
                                     else activeStoryboardId ap)\<rparr>)"
    if "filter (\<lambda>sb. sb_id sb \<noteq> i) (storyboards ap) = r # rs" for i r rs
  proof (cases "activeStoryboardId ap = i")
    case True
    then show ?thesis by (simp add: project_ok_def)
  next
    case False
    have "activeStoryboardId ap \<in> sb_id ` set (storyboards ap)"
      using ok by (simp add: project_ok_def)
    then have "activeStoryboardId ap \<in> sb_id ` set (filter (\<lambda>sb. sb_id sb \<noteq> i) (storyboards ap))"
      using False by auto
    then show ?thesis using False that by (simp add: project_ok_def)
  qed
  show ?thesis
  proof (cases "dc_id (deleteConfirmation a)")
    case None
    then have "projects a' = projects a"
      using assms(2) d by (auto simp: executeDelete_def)
    then show ?thesis using assms(1) by simp
  next
    case (Some i)
    consider (proj) "dc_type (deleteConfirmation a) = Some DeleteProject" "i \<noteq> []"
      | (sbd) "dc_type (deleteConfirmation a) = Some DeleteStoryboard" "i \<noteq> []"
      | (other) "\<not> (dc_type (deleteConfirmation a) = Some DeleteProject \<and> i \<noteq> [])"
          "\<not> (dc_type (deleteConfirmation a) = Some DeleteStoryboard \<and> i \<noteq> [])"
      by blast
    then show ?thesis
    proof cases
      case proj
      then have "projects a' = filter (\<lambda>p. proj_id p \<noteq> i) (projects a)"
        using assms(2) d Some
        by (auto simp: executeDelete_def Let_def split: if_splits list.splits)
      then show ?thesis using rem by simp
    next
      case sbd
      show ?thesis
      proof (cases "filter (\<lambda>sb. sb_id sb \<noteq> i) (storyboards ap)")
        case Nil
        then have "projects a' = projects a"
          using assms(2) d Some sbd by (auto simp: executeDelete_def Let_def)
        then show ?thesis using assms(1) by simp
      next
        case (Cons r rs)
        then have "projects a' = withProject a (ap\<lparr>storyboards := r # rs,
              activeStoryboardId := (if activeStoryboardId ap = i then sb_id r
                                     else activeStoryboardId ap)\<rparr>)"
          using assms(2) d Some sbd by (auto simp: executeDelete_def Let_def)
        then show ?thesis using withProject_ok[OF assms(1) sb[OF Cons]] by simp
      qed
    next
      case other
      then have "projects a' = projects a"
        using assms(2) d Some by (auto simp: executeDelete_def Let_def)
      then show ?thesis using assms(1) by simp
    qed
  qed
qed

lemma executeDelete_last_storyboard:
  assumes "derived a = Inr (ap, asb)" and "storyboards ap = [sb]"
    and "deleteConfirmation a = \<lparr>isOpen = True, dc_type = Some DeleteStoryboard,
            dc_id = Some (sb_id sb), dc_name = n\<rparr>"
  shows "executeDelete a = Inr (a\<lparr>deleteConfirmation := closedConfirmation\<rparr>)"
    and "requestDeleteStoryboard (sb_id sb) n' a = Inr a"
  using assms by (simp_all add: executeDelete_def requestDeleteStoryboard_def Let_def)

lemma handleNewStoryboard_ok:
  assumes "store_ok (projects a)" and "handleNewStoryboard now a = Inr a'"
  shows "store_ok (projects a')"
proof -
  obtain ap asb where d: "derived a = Inr (ap, asb)"
    using assms(2) by (auto simp: handleNewStoryboard_def split: sum.splits)
  define newSb where "newSb = \<lparr>sb_id = ''sb-'' @ decimal now,
      sb_name = ''Storyboard '' @ decimal (length (storyboards ap) + 1), shots = []\<rparr>"
  have a': "projects a' = withProject a (ap\<lparr>storyboards := storyboards ap @ [newSb],
              activeStoryboardId := sb_id newSb\<rparr>)"
    using assms(2) d by (auto simp: handleNewStoryboard_def Let_def newSb_def)
  have "project_ok (ap\<lparr>storyboards := storyboards ap @ [newSb],
              activeStoryboardId := sb_id newSb\<rparr>)"
    by (simp add: project_ok_def)
  then show ?thesis using withProject_ok[OF assms(1)] a' by simp
qed

lemma selectStoryboard_ok:
  assumes "store_ok (projects a)" and "derived a = Inr (ap, asb)" and "sb \<in> set (storyboards ap)"
  shows "\<exists>a'. selectStoryboard sb a = Inr a' \<and> store_ok (projects a')"
proof -
  have "project_ok ap" using assms(1,2) by (rule derived_project_ok)
  then have "project_ok (ap\<lparr>activeStoryboardId := sb_id sb\<rparr>)"
    using assms(3) by (simp add: project_ok_def)
  then show ?thesis
    using assms(2) withProject_ok[OF assms(1)] by (simp add: selectStoryboard_def)
qed

lemma handleNewProject_same_reading:
  assumes "store_ok (projects a)" and "handleNewProject now1 now2 now2 a = Inr a'"
  shows "store_ok (projects a')"
  using assms
  by (auto simp: handleNewProject_def Let_def store_ok_def project_ok_def split: sum.splits)

text \<open>
  Claim C8, at the input where the code breaks it. \<open>handleNewProject\<close> reads the
  clock once for the storyboard's id and once more for \<open>activeStoryboardId\<close>.
  When the clock moves on by a millisecond between the two readings, the new
  project owns the storyboard \<open>sb-1762110000000\<close> and its
  \<open>activeStoryboardId\<close> is \<open>sb-1762110000001\<close>, the id of no storyboard it
  owns: the store satisfied the invariant before and does not after.
\<close>

theorem new_project_dangling_active_storyboard:
  "store_ok (projects (initialApp None))
   \<and> (case handleNewProject 1762110000000 1762110000000 1762110000001 (initialApp None) of
        Inl e \<Rightarrow> False
      | Inr a' \<Rightarrow>
          map sb_id (storyboards (last (projects a'))) = [''sb-1762110000000'']
          \<and> activeStoryboardId (last (projects a')) = ''sb-1762110000001''
          \<and> activeProjectId a' = proj_id (last (projects a'))
          \<and> \<not> project_ok (last (projects a'))
          \<and> \<not> store_ok (projects a'))"
  using default_store_ok default_derived
  by (simp add: handleNewProject_def Let_def decimal_reading decimal_next_reading store_ok_def
      project_ok_def)

section \<open>Restarting and opening the player\<close>








lemma derived_openPlayer: "derived (openPlayer a) = derived a"
  by (simp add: derived_def activeProject_def openPlayer_def)

lemma blank_derived: "derived blank_app = Inr (blank_project, blank_storyboard)"
  by (simp add: blank_app_def blank_project_def blank_storyboard_def initialApp_def
      derived_def activeProject_def activeStoryboard_def find_or_first_def)

text \<open>
  Over a sequence that has a shot the first render succeeds and the player is
  mounted in its initial state; over the empty sequence the caption and the
  tick read a field of the current shot, which is undefined.
\<close>

lemma open_on_shots:
  assumes "derived a = Inr (ap, asb)" and "shots asb \<noteq> []"
  shows "mountedPlayer (openPlayer a) = Inr (Some (shots asb, initialPlayer))"
proof -
  have "isPlayerOpen (openPlayer a)" by (simp add: openPlayer_def)
  moreover have "\<exists>v. renderPlayer (shots asb) initialPlayer = Inr v"
    using assms(2)
    by (simp add: renderPlayer_def shotCaption_def currentShot_def initialPlayer_def Let_def)
  ultimately show ?thesis
    using assms(1) by (auto simp: mountedPlayer_def derived_openPlayer)
qed

lemma empty_sequence_throws:
  "shotCaption [] initialPlayer = Inl TypeError \<and> tick [] initialPlayer = Inl TypeError
   \<and> tick64 [] initialPlayer = Inl TypeError"
  by (simp add: shotCaption_def tick_def tick64_def currentShot_def)

text \<open>
  Claim C4, at the input where the code breaks it. The store holds one
  storyboard, without shots. Before the Play Animatic button is clicked no player
  is mounted; the click opens the player whatever the sequence is, and the
  first render of AnimaticPlayer.tsx over the empty sequence gets past the
  image, which it reads with \<open>?.\<close>, and throws a \<open>TypeError\<close> at the caption: an
  error is raised, and no player is mounted.
\<close>

theorem open_on_empty_sequence_throws:
  "derived blank_app = Inr (blank_project, blank_storyboard)
   \<and> shots blank_storyboard = []
   \<and> mountedPlayer blank_app = Inr None
   \<and> isPlayerOpen (openPlayer blank_app)
   \<and> currentShot [] initialPlayer = None
   \<and> shownImage (currentShot [] initialPlayer) = None
   \<and> renderPlayer [] initialPlayer = Inl TypeError
   \<and> mountedPlayer (openPlayer blank_app) = Inl TypeError"
proof -
  have e: "shots blank_storyboard = []" by (simp add: blank_storyboard_def)
  have closed: "\<not> isPlayerOpen blank_app" by (simp add: blank_app_def initialApp_def)
  have m0: "mountedPlayer blank_app = Inr None"
    using closed by (simp add: mountedPlayer_def blank_derived)
  have o: "isPlayerOpen (openPlayer blank_app)" by (simp add: openPlayer_def)
  have c: "currentShot [] initialPlayer = None" by (simp add: currentShot_def)
  have r: "renderPlayer [] initialPlayer = Inl TypeError"
    by (simp add: renderPlayer_def shotCaption_def c Let_def)
  have m1: "mountedPlayer (openPlayer blank_app) = Inl TypeError"
    using o by (simp add: mountedPlayer_def derived_openPlayer blank_derived e r)
  show ?thesis using blank_derived e m0 o c r m1 by (simp add: shownImage_def)
qed


end
